theory Spec2Isabelle
  imports Main "HOL-Library.Sublist"
begin

section \<open>Values, test cases and exceptions\<close>

text \<open>
  JSON-like Python values.  A dict is an association list in insertion order.  Floats
  (the latency) are never computed with by the runner; any value can stand for them.
\<close>

datatype pyval =
    PNone
  | PBool bool
  | PInt int
  | PStr string
  | PList "pyval list"
  | PDict "(string \<times> pyval) list"

text \<open>
  A test case as loaded from a benchmark data file: the keys \<open>id\<close>, \<open>question\<close>
  and \<open>function\<close> of the decoded JSON object, the id being a string.  A line of a data
  file that is not such an object makes the runner raise (\<open>json.loads\<close>, \<open>KeyError\<close>);
  the model starts from data files that decode.
\<close>

record test_case =
  case_id :: string
  question :: pyval
  function_field :: pyval

text \<open>
  What the runner observes of an exception raised by \<open>handler.inference\<close>:
  \<open>str(e)\<close> and, when \<open>hasattr(e, "status_code")\<close> holds, its \<open>status_code\<close>.
\<close>

record exn =
  message :: string
  status_code :: "int option"

datatype py_error =
    KeyError string
  | TypeError
  | AttributeError
  | UnboundLocalError string
  | FileNotFoundError string
  | Raised exn

text \<open>
  The metadata dict returned by an interactive adapter next to its result, with the three
  keys the runner reads.
\<close>

record metadata =
  input_tokens :: pyval
  output_tokens :: pyval
  latency :: pyval

section \<open>String operations of the Python standard library\<close>

text \<open>\<open>sub in s\<close> for strings.\<close>

fun contains :: "string \<Rightarrow> string \<Rightarrow> bool" where
  "contains sub [] = (sub = [])"
| "contains sub (c # cs) = (prefix sub (c # cs) \<or> contains sub cs)"

text \<open>
  \<open>s.lower()\<close>.  Strings are lists of 8-bit characters; the letters \<open>A\<close> to
  \<open>Z\<close> are the ones with a lower case.
\<close>

definition lower_char :: "char \<Rightarrow> char" where
  "lower_char c =
     (let n = (of_char c :: nat)
      in if 65 \<le> n \<and> n \<le> 90 then char_of (n + 32) else c)"

definition lower :: "string \<Rightarrow> string" where
  "lower s = map lower_char s"

text \<open>
  \<open>s.rsplit("_", 1)[0]\<close>: the text before the last underscore, and all of \<open>s\<close>
  when it has no underscore.
\<close>

definition rsplit_head :: "string \<Rightarrow> string" where
  "rsplit_head s =
     (if CHR ''_'' \<in> set s then rev (tl (dropWhile (\<lambda>c. c \<noteq> CHR ''_'') (rev s))) else s)"

text \<open>\<open>s.replace(old, new)\<close>: every non-overlapping occurrence, leftmost first.\<close>

function str_replace :: "string \<Rightarrow> string \<Rightarrow> string \<Rightarrow> string" where
  "str_replace old new s =
     (if old = [] then new @ concat (map (\<lambda>c. c # new) s)
      else if s = [] then []
      else if prefix old s then new @ str_replace old new (drop (length old) s)
      else hd s # str_replace old new (tl s))"
  by pat_completeness auto
termination
  by (relation "measure (\<lambda>(old, new, s). length s)") auto

declare str_replace.simps [simp del]

section \<open>The result store\<close>

text \<open>
  The part of the file system the runner touches: the directories that exist and the
  result logs, each a list of lines holding one JSON entry.  A path with no file is
  \<open>None\<close>.  Paths are compared as they are written.  A missing directory is the one
  failure of the file system that is modelled: permissions, a full disk and a directory
  standing where a file is expected are left out.
\<close>

record filesystem =
  dirs :: "string set"
  files :: "string \<Rightarrow> pyval list option"

text \<open>
  \<open>os.makedirs(p, exist_ok=True)\<close> makes sure that \<open>p\<close> and the directories above
  it exist: every part of \<open>p\<close> that ends before a slash, and \<open>p\<close> itself.
\<close>

definition path_prefixes :: "string \<Rightarrow> string list" where
  "path_prefixes p =
     map (\<lambda>i. take i p) (filter (\<lambda>i. p ! i = CHR ''/'') [0..<length p]) @ [p]"

definition makedirs :: "string \<Rightarrow> filesystem \<Rightarrow> filesystem" where
  "makedirs p fs = fs\<lparr>dirs := dirs fs \<union> set (path_prefixes p)\<rparr>"

text \<open>
  The directory a file lies in: the path before its last slash, empty for a file of the
  working directory or of the root, which exist.
\<close>

definition parent_dir :: "string \<Rightarrow> string" where
  "parent_dir p =
     (if CHR ''/'' \<in> set p then rev (tl (dropWhile (\<lambda>c. c \<noteq> CHR ''/'') (rev p))) else [])"

text \<open>
  What \<open>f.write\<close> does to a log that has been opened for appending: the line goes to
  the end of the file, which is created when it is absent.
\<close>

definition append_line :: "string \<Rightarrow> pyval \<Rightarrow> filesystem \<Rightarrow> filesystem" where
  "append_line p ln fs =
     fs\<lparr>files := (files fs)(p \<mapsto> (case files fs p of None \<Rightarrow> [] | Some ls \<Rightarrow> ls) @ [ln])\<rparr>"

text \<open>
  \<open>with open(p, "a+") as f: f.write(...)\<close>.  Opening raises
  \<open>FileNotFoundError\<close> when the directory of the file does not exist.
\<close>

definition open_append :: "string \<Rightarrow> pyval \<Rightarrow> filesystem \<Rightarrow> py_error + filesystem" where
  "open_append p ln fs =
     (if parent_dir p = [] \<or> parent_dir p \<in> dirs fs then Inr (append_line p ln fs)
      else Inl (FileNotFoundError p))"

definition read_lines :: "filesystem \<Rightarrow> string \<Rightarrow> pyval list" where
  "read_lines fs p = (case files fs p of None \<Rightarrow> [] | Some ls \<Rightarrow> ls)"

subsection \<open>\<open>BaseHandler.write\<close>\<close>

definition model_name_dir :: "string \<Rightarrow> string" where
  "model_name_dir model_name = str_replace ''/'' ''_'' model_name"

definition result_dir :: "string \<Rightarrow> string \<Rightarrow> string" where
  "result_dir language model_name = ''./result/'' @ language @ ''/'' @ model_name_dir model_name"

definition file_to_write :: "string \<Rightarrow> string \<Rightarrow> string \<Rightarrow> string" where
  "file_to_write language model_name test_category =
     result_dir language model_name @ ''/gorilla_openfunctions_v1_test_'' @ test_category
       @ ''_result.json''"

text \<open>\<open>entry["id"].rsplit("_", 1)[0]\<close> with the exceptions of the lookups.\<close>

definition entry_category :: "pyval \<Rightarrow> py_error + string" where
  "entry_category entry =
     (case entry of
        PDict kvs \<Rightarrow>
          (case map_of kvs ''id'' of
             None \<Rightarrow> Inl (KeyError ''id'')
           | Some (PStr s) \<Rightarrow> Inr (rsplit_head s)
           | Some _ \<Rightarrow> Inl AttributeError)
      | _ \<Rightarrow> Inl TypeError)"

text \<open>
  The loop \<open>for entry in result\<close>; an exception leaves the earlier entries written.
  Only the result directory of the model has been created: the log of a category whose
  name contains a slash lies in a directory below it, which \<open>write\<close> does not create.
\<close>

fun write_entries :: "string \<Rightarrow> string \<Rightarrow> pyval list \<Rightarrow> filesystem \<Rightarrow> py_error option \<times> filesystem" where
  "write_entries model_name language [] fs = (None, fs)"
| "write_entries model_name language (entry # rest) fs =
     (case entry_category entry of
        Inl err \<Rightarrow> (Some err, fs)
      | Inr test_category \<Rightarrow>
          (case open_append (file_to_write language model_name test_category) entry fs of
             Inl err \<Rightarrow> (Some err, fs)
           | Inr fs' \<Rightarrow> write_entries model_name language rest fs'))"

text \<open>
  \<open>write(self, result, language)\<close>.  A dict is wrapped into a one-element list; a list
  is iterated; iterating a string yields one-character strings, which cannot be indexed
  by \<open>"id"\<close>; the remaining values are not iterable.
\<close>

definition handler_write :: "string \<Rightarrow> pyval \<Rightarrow> string \<Rightarrow> filesystem \<Rightarrow> py_error option \<times> filesystem" where
  "handler_write model_name result language fs =
     (let fs1 = makedirs (result_dir language model_name) fs in
      case result of
        PDict kvs \<Rightarrow> write_entries model_name language [PDict kvs] fs1
      | PList entries \<Rightarrow> write_entries model_name language entries fs1
      | PStr s \<Rightarrow> write_entries model_name language (map (\<lambda>c. PStr [c]) s) fs1
      | _ \<Rightarrow> (Some TypeError, fs1))"

section \<open>Selecting the pending test cases\<close>

text \<open>\<open>TEST_FILE_MAPPING\<close>, in the order of the source.\<close>

definition TEST_FILE_MAPPING :: "(string \<times> string) list" where
  "TEST_FILE_MAPPING =
     [(''executable_simple'', ''gorilla_openfunctions_v1_test_executable_simple.json''),
      (''executable_parallel_function'', ''gorilla_openfunctions_v1_test_executable_parallel_function.json''),
      (''executable_multiple_function'', ''gorilla_openfunctions_v1_test_executable_multiple_function.json''),
      (''executable_parallel_multiple_function'', ''gorilla_openfunctions_v1_test_executable_parallel_multiple_function.json''),
      (''simple'', ''gorilla_openfunctions_v1_test_simple.json''),
      (''relevance'', ''gorilla_openfunctions_v1_test_relevance.json''),
      (''parallel_function'', ''gorilla_openfunctions_v1_test_parallel_function.json''),
      (''multiple_function'', ''gorilla_openfunctions_v1_test_multiple_function.json''),
      (''parallel_multiple_function'', ''gorilla_openfunctions_v1_test_parallel_multiple_function.json''),
      (''rest'', ''gorilla_openfunctions_v1_test_rest.json'')]"

text \<open>
  The benchmark data: the decoded lines of each data file, by path; \<open>None\<close> when the
  file is missing.
\<close>

type_synonym datafiles = "string \<Rightarrow> test_case list option"

definition data_path :: "string \<Rightarrow> string \<Rightarrow> string" where
  "data_path language file_to_open = ''./data/'' @ language @ ''/'' @ file_to_open"

definition result_path :: "string \<Rightarrow> string \<Rightarrow> string \<Rightarrow> string" where
  "result_path language model_name file_to_open =
     ''./result/'' @ language @ ''/'' @ str_replace ''/'' ''_'' model_name @ ''/''
       @ str_replace ''.json'' ''_result.json'' file_to_open"

text \<open>
  The counter \<open>num_existing_result\<close> of \<open>collect_test_cases\<close>: 0, and one more
  for every line of the result file when that file exists.
\<close>

definition num_existing_result :: "filesystem \<Rightarrow> string \<Rightarrow> string \<Rightarrow> string \<Rightarrow> nat" where
  "num_existing_result fs language model_name file_to_open =
     (case files fs (result_path language model_name file_to_open) of
        None \<Rightarrow> 0
      | Some ls \<Rightarrow> length ls)"

text \<open>The loop over \<open>test_filename_total\<close>, extending \<open>test_cases_total\<close>.\<close>

fun collect_loop ::
  "datafiles \<Rightarrow> filesystem \<Rightarrow> string \<Rightarrow> string \<Rightarrow> test_case list \<Rightarrow> string list
     \<Rightarrow> py_error + test_case list" where
  "collect_loop data fs language model_name test_cases_total [] = Inr test_cases_total"
| "collect_loop data fs language model_name test_cases_total (file_to_open # remaining) =
     (case data (data_path language file_to_open) of
        None \<Rightarrow> Inl (FileNotFoundError (data_path language file_to_open))
      | Some test_cases \<Rightarrow>
          collect_loop data fs language model_name
            (test_cases_total
               @ drop (num_existing_result fs language model_name file_to_open) test_cases)
            remaining)"

definition collect_test_cases ::
  "datafiles \<Rightarrow> filesystem \<Rightarrow> string \<Rightarrow> string list \<Rightarrow> string \<Rightarrow> py_error + test_case list" where
  "collect_test_cases data fs language test_filename_total model_name =
     collect_loop data fs language model_name [] test_filename_total"

section \<open>Resolving the requested categories\<close>

text \<open>
  A Python \<open>set\<close> is kept as a duplicate-free list; \<open>add\<close> is \<open>List.insert\<close>.
  The order in which \<open>list(s)\<close> enumerates a set is not fixed by Python: it is the
  parameter \<open>enum\<close>.  \<open>TEST_COLLECTION_MAPPING\<close> is imported from
  \<open>eval_checker.eval_checker_constant\<close>; it is the parameter \<open>coll\<close>, from an alias to
  the names it stands for.
\<close>

definition set_order :: "(string list \<Rightarrow> string list) \<Rightarrow> bool" where
  "set_order enum = (\<forall>xs. distinct xs \<longrightarrow> distinct (enum xs) \<and> set (enum xs) = set xs)"

text \<open>
  Adding the names \<open>test_name\<close> of one requested token to both sets;
  \<open>TEST_FILE_MAPPING[test_name]\<close> raises \<open>KeyError\<close> for an unknown name.
\<close>

fun add_test_names ::
  "string list \<Rightarrow> string list \<times> string list \<Rightarrow> py_error + string list \<times> string list" where
  "add_test_names [] (test_name_total, test_filename_total) =
     Inr (test_name_total, test_filename_total)"
| "add_test_names (test_name # others) (test_name_total, test_filename_total) =
     (case map_of TEST_FILE_MAPPING test_name of
        None \<Rightarrow> Inl (KeyError test_name)
      | Some filename \<Rightarrow>
          add_test_names others
            (List.insert test_name test_name_total, List.insert filename test_filename_total))"

fun parse_loop ::
  "(string \<times> string list) list \<Rightarrow> string list \<Rightarrow> string list \<times> string list
     \<Rightarrow> py_error + string list \<times> string list" where
  "parse_loop coll [] totals = Inr totals"
| "parse_loop coll (test_category # others) totals =
     (case (case map_of coll test_category of
              Some test_names \<Rightarrow> add_test_names test_names totals
            | None \<Rightarrow> add_test_names [test_category] totals) of
        Inl err \<Rightarrow> Inl err
      | Inr totals' \<Rightarrow> parse_loop coll others totals')"

definition parse_test_category_argument ::
  "(string list \<Rightarrow> string list) \<Rightarrow> (string \<times> string list) list \<Rightarrow> string list
     \<Rightarrow> py_error + string list \<times> string list" where
  "parse_test_category_argument enum coll test_category_args =
     (case parse_loop coll test_category_args ([], []) of
        Inl err \<Rightarrow> Inl err
      | Inr (test_name_total, test_filename_total) \<Rightarrow>
          Inr (enum test_name_total, enum test_filename_total))"

section \<open>Generating the results\<close>

text \<open>
  \<open>ModelStyle\<close> is declared in \<open>model_handler.model_style\<close>; the runner only tells
  \<open>OSSMODEL\<close> from the other styles.
\<close>

datatype ModelStyle = OSSMODEL | Other_Style

datatype outcome = Returns pyval metadata | Raises exn

text \<open>
  A handler.  Its \<open>inference\<close> method is a transition on the state \<open>'a\<close> of whatever
  it talks to.  Handlers of style \<open>OSSMODEL\<close> take the whole list of test cases and return
  the list of results (\<open>inference_oss\<close>); the others take the question, the functions
  and the category of one case (\<open>inference\<close>).
\<close>

record 'a handler =
  model_name :: string
  model_style :: ModelStyle
  inference :: "'a \<Rightarrow> pyval \<Rightarrow> pyval \<Rightarrow> string \<Rightarrow> outcome \<times> 'a"
  inference_oss :: "'a \<Rightarrow> test_case list \<Rightarrow> (exn + pyval list) \<times> 'a"

text \<open>
  The state a run acts on: the file system, the state behind the handler, the arguments
  of every call of \<open>handler.inference\<close> so far, and the seconds spent in
  \<open>time.sleep\<close>.
\<close>

record 'a world =
  store :: filesystem
  adapter :: 'a
  calls :: "(pyval \<times> pyval \<times> string) list"
  slept :: nat

definition RETRY_LIMIT :: nat where
  "RETRY_LIMIT = 3"

definition RETRY_DELAY :: nat where
  "RETRY_DELAY = 65"

text \<open>The condition under which the \<open>except\<close> block sleeps and counts a retry.\<close>

definition rate_limited :: "exn \<Rightarrow> bool" where
  "rate_limited e =
     (contains ''rate limit reached'' (lower (message e))
      \<or> (case status_code e of
            None \<Rightarrow> False
          | Some c \<Rightarrow> c = 429 \<or> c = 503 \<or> c = 500))"

text \<open>
  The \<open>while retry_count < RETRY_LIMIT\<close> loop.  \<open>vars\<close> holds the local variables
  \<open>result\<close> and \<open>metadata\<close> of \<open>generate_results\<close>, \<open>None\<close> while they are
  unbound; the loop assigns them only when \<open>handler.inference\<close> returns.
\<close>

function retry_loop ::
  "'a handler \<Rightarrow> pyval \<Rightarrow> pyval \<Rightarrow> string \<Rightarrow> nat \<Rightarrow> (pyval \<times> metadata) option \<Rightarrow> 'a world
     \<Rightarrow> py_error option \<times> (pyval \<times> metadata) option \<times> 'a world" where
  "retry_loop h user_question functions test_category retry_count vars w =
     (if retry_count < RETRY_LIMIT then
        (let (out, a) = inference h (adapter w) user_question functions test_category;
             w1 = w\<lparr>adapter := a, calls := calls w @ [(user_question, functions, test_category)]\<rparr>
         in case out of
              Returns result md \<Rightarrow> (None, Some (result, md), w1)
            | Raises e \<Rightarrow>
                if rate_limited e then
                  retry_loop h user_question functions test_category (retry_count + 1) vars
                    (w1\<lparr>slept := slept w1 + RETRY_DELAY\<rparr>)
                else (Some (Raised e), vars, w1))
      else (None, vars, w))"
  by pat_completeness auto
termination
  by (relation "measure (\<lambda>(h, q, f, c, retry_count, vars, w). RETRY_LIMIT - retry_count)") auto

declare retry_loop.simps [simp del]

text \<open>\<open>if type(functions) is dict or type(functions) is str: functions = [functions]\<close>\<close>

definition normalize_functions :: "pyval \<Rightarrow> pyval" where
  "normalize_functions functions =
     (case functions of
        PDict kvs \<Rightarrow> PList [functions]
      | PStr s \<Rightarrow> PList [functions]
      | _ \<Rightarrow> functions)"

definition result_to_write :: "test_case \<Rightarrow> pyval \<Rightarrow> metadata \<Rightarrow> pyval" where
  "result_to_write test_case result md =
     PDict [(''id'', PStr (case_id test_case)),
            (''result'', result),
            (''input_token_count'', input_tokens md),
            (''output_token_count'', output_tokens md),
            (''latency'', latency md)]"

text \<open>
  The body of \<open>for test_case in tqdm(test_cases_total)\<close>.  Reading \<open>result\<close> while
  it is unbound raises \<open>UnboundLocalError\<close>.
\<close>

definition interactive_case ::
  "'a handler \<Rightarrow> string \<Rightarrow> (pyval \<times> metadata) option \<Rightarrow> test_case \<Rightarrow> 'a world
     \<Rightarrow> py_error option \<times> (pyval \<times> metadata) option \<times> 'a world" where
  "interactive_case h language vars test_case w =
     (let user_question = question test_case;
          functions = normalize_functions (function_field test_case);
          test_category = rsplit_head (case_id test_case)
      in case retry_loop h user_question functions test_category 0 vars w of
           (Some err, vars', w') \<Rightarrow> (Some err, vars', w')
         | (None, None, w') \<Rightarrow> (Some (UnboundLocalError ''result''), None, w')
         | (None, Some (result, md), w') \<Rightarrow>
             (case handler_write (model_name h) (result_to_write test_case result md) language
                     (store w') of
                (err, fs) \<Rightarrow> (err, Some (result, md), w'\<lparr>store := fs\<rparr>)))"

fun interactive_loop ::
  "'a handler \<Rightarrow> string \<Rightarrow> (pyval \<times> metadata) option \<Rightarrow> test_case list \<Rightarrow> 'a world
     \<Rightarrow> py_error option \<times> 'a world" where
  "interactive_loop h language vars [] w = (None, w)"
| "interactive_loop h language vars (test_case # pending) w =
     (case interactive_case h language vars test_case w of
        (Some err, vars', w') \<Rightarrow> (Some err, w')
      | (None, vars', w') \<Rightarrow> interactive_loop h language vars' pending w')"

text \<open>The loop \<open>for test_case, res in zip(test_cases_total, result)\<close> of the other branch.\<close>

fun oss_loop ::
  "'a handler \<Rightarrow> string \<Rightarrow> (test_case \<times> pyval) list \<Rightarrow> 'a world \<Rightarrow> py_error option \<times> 'a world" where
  "oss_loop h language [] w = (None, w)"
| "oss_loop h language ((test_case, res) # pairs) w =
     (case handler_write (model_name h)
             (PDict [(''id'', PStr (case_id test_case)), (''result'', res)]) language (store w) of
        (Some err, fs) \<Rightarrow> (Some err, w\<lparr>store := fs\<rparr>)
      | (None, fs) \<Rightarrow> oss_loop h language pairs (w\<lparr>store := fs\<rparr>))"

text \<open>
  \<open>handler_map\<close> is imported from \<open>model_handler.handler_map\<close>: a parameter, from a
  model name to the handler class.  \<open>BaseHandler.__init__\<close> stores the model name.
  Of \<open>args\<close> the runner itself reads the language only; the generation parameters and
  the resource parameters are handed to the handler and are part of its behaviour.
\<close>

definition build_handler :: "(string \<Rightarrow> 'a handler option) \<Rightarrow> string \<Rightarrow> py_error + 'a handler" where
  "build_handler handler_map name =
     (case handler_map name of
        None \<Rightarrow> Inl (KeyError name)
      | Some cls \<Rightarrow> Inr (cls\<lparr>model_name := name\<rparr>))"

definition generate_results ::
  "(string \<Rightarrow> 'a handler option) \<Rightarrow> string \<Rightarrow> string \<Rightarrow> test_case list \<Rightarrow> 'a world
     \<Rightarrow> py_error option \<times> 'a world" where
  "generate_results handler_map language name test_cases_total w =
     (case build_handler handler_map name of
        Inl err \<Rightarrow> (Some err, w)
      | Inr h \<Rightarrow>
          if model_style h = OSSMODEL then
            (case inference_oss h (adapter w) test_cases_total of
               (Inl e, a) \<Rightarrow> (Some (Raised e), w\<lparr>adapter := a\<rparr>)
             | (Inr result, a) \<Rightarrow>
                 oss_loop h language (zip test_cases_total result) (w\<lparr>adapter := a\<rparr>))
          else interactive_loop h language None test_cases_total w)"

section \<open>The main program\<close>

text \<open>
  One round of \<open>for model_name in args.model\<close>.  \<open>USE_COHERE_OPTIMIZATION\<close> is
  imported from \<open>model_handler.constant\<close>: the parameter \<open>cohere\<close>.
\<close>

definition run_model ::
  "(string \<Rightarrow> 'a handler option) \<Rightarrow> bool \<Rightarrow> datafiles \<Rightarrow> string \<Rightarrow> string list \<Rightarrow> string
     \<Rightarrow> 'a world \<Rightarrow> py_error option \<times> 'a world" where
  "run_model handler_map cohere data language test_filename_total name0 w =
     (let name = (if cohere \<and> contains ''command-r-plus'' name0 then name0 @ ''-optimized''
                  else name0);
          fs = makedirs (''./result/'' @ language @ ''/'' @ str_replace ''/'' ''_'' name)
                 (makedirs (''./data/'' @ language) (store w));
          w1 = w\<lparr>store := fs\<rparr>
      in case collect_test_cases data fs language test_filename_total name of
           Inl err \<Rightarrow> (Some err, w1)
         | Inr test_cases_total \<Rightarrow>
             if length test_cases_total = 0 then (None, w1)
             else generate_results handler_map language name test_cases_total w1)"

fun model_loop ::
  "(string \<Rightarrow> 'a handler option) \<Rightarrow> bool \<Rightarrow> datafiles \<Rightarrow> string \<Rightarrow> string list \<Rightarrow> string list
     \<Rightarrow> 'a world \<Rightarrow> py_error option \<times> 'a world" where
  "model_loop handler_map cohere data language test_filename_total [] w = (None, w)"
| "model_loop handler_map cohere data language test_filename_total (name # names) w =
     (case run_model handler_map cohere data language test_filename_total name w of
        (Some err, w') \<Rightarrow> (Some err, w')
      | (None, w') \<Rightarrow> model_loop handler_map cohere data language test_filename_total names w')"

text \<open>
  The program: \<open>models\<close> is \<open>args.model\<close>, \<open>test_category_args\<close> is
  \<open>args.test_category\<close>, \<open>language\<close> is \<open>args.language\<close>.
\<close>

definition main ::
  "(string list \<Rightarrow> string list) \<Rightarrow> (string \<times> string list) list \<Rightarrow> (string \<Rightarrow> 'a handler option)
     \<Rightarrow> bool \<Rightarrow> datafiles \<Rightarrow> string \<Rightarrow> string list \<Rightarrow> string list \<Rightarrow> 'a world
     \<Rightarrow> py_error option \<times> 'a world" where
  "main enum coll handler_map cohere data language test_category_args models w =
     (case parse_test_category_argument enum coll test_category_args of
        Inl err \<Rightarrow> (Some err, w)
      | Inr (test_name_total, test_filename_total) \<Rightarrow>
          model_loop handler_map cohere data language test_filename_total models w)"

section \<open>Notions of the specification and example inputs\<close>

text \<open>
  The records of a log whose id prefix is a given category: what the specification
  says the completed-count reflects.
\<close>

definition matching_records :: "string \<Rightarrow> pyval list \<Rightarrow> pyval list" where
  "matching_records test_category ls = filter (\<lambda>entry. entry_category entry = Inr test_category) ls"


text \<open>Example inputs: a model \<open>m\<close>, the language \<open>en\<close>, two categories.\<close>

definition simple_file :: string where
  "simple_file = ''gorilla_openfunctions_v1_test_simple.json''"

definition rest_file :: string where
  "rest_file = ''gorilla_openfunctions_v1_test_rest.json''"

definition simple_log :: string where
  "simple_log = ''./result/en/m/gorilla_openfunctions_v1_test_simple_result.json''"

definition example_case :: "string \<Rightarrow> test_case" where
  "example_case i = \<lparr>case_id = i, question = PStr ''q'', function_field = PList []\<rparr>"

definition example_record :: "string \<Rightarrow> pyval" where
  "example_record i = PDict [(''id'', PStr i), (''result'', PStr ''r'')]"

definition example_data :: datafiles where
  "example_data =
     [''./data/en/gorilla_openfunctions_v1_test_simple.json'' \<mapsto>
        [example_case ''simple_0'', example_case ''simple_1'', example_case ''simple_2''],
      ''./data/en/gorilla_openfunctions_v1_test_rest.json'' \<mapsto>
        [example_case ''rest_0'', example_case ''rest_1'']]"

definition no_files :: filesystem where
  "no_files = \<lparr>dirs = {}, files = Map.empty\<rparr>"

definition one_record_store :: filesystem where
  "one_record_store = no_files\<lparr>files := [simple_log \<mapsto> [example_record ''simple_0'']]\<rparr>"

definition foreign_record_store :: filesystem where
  "foreign_record_store = no_files\<lparr>files := [simple_log \<mapsto> [example_record ''rest_0'']]\<rparr>"




text \<open>Example handlers: one that plays a script of outcomes, one that answers in a batch.\<close>

definition scripted_inference ::
  "outcome list \<Rightarrow> pyval \<Rightarrow> pyval \<Rightarrow> string \<Rightarrow> outcome \<times> outcome list" where
  "scripted_inference script user_question functions test_category =
     (case script of
        [] \<Rightarrow> (Raises \<lparr>message = ''script exhausted'', status_code = None\<rparr>, [])
      | out # later \<Rightarrow> (out, later))"

definition scripted_results :: "outcome list \<Rightarrow> test_case list \<Rightarrow> (exn + pyval list) \<times> outcome list" where
  "scripted_results script test_cases = (Inr [], script)"

definition scripted_handler :: "outcome list handler" where
  "scripted_handler =
     \<lparr>model_name = ''m'', model_style = Other_Style,
      inference = scripted_inference, inference_oss = scripted_results\<rparr>"

definition rate_limit_error :: exn where
  "rate_limit_error = \<lparr>message = ''Rate limit reached for requests'', status_code = Some 429\<rparr>"

definition auth_error :: exn where
  "auth_error = \<lparr>message = ''Incorrect API key provided'', status_code = Some 401\<rparr>"

definition example_metadata :: metadata where
  "example_metadata = \<lparr>input_tokens = PInt 10, output_tokens = PInt 20, latency = PInt 1\<rparr>"

definition example_world :: "outcome list \<Rightarrow> outcome list world" where
  "example_world script = \<lparr>store = no_files, adapter = script, calls = [], slept = 0\<rparr>"


definition scripted_map :: "string \<Rightarrow> outcome list handler option" where
  "scripted_map name = (if name = ''m'' then Some scripted_handler else None)"






text \<open>What a requested token stands for, and an example alias table.\<close>

definition expansion :: "(string \<times> string list) list \<Rightarrow> string \<Rightarrow> string list" where
  "expansion coll test_category =
     (case map_of coll test_category of Some test_names \<Rightarrow> test_names | None \<Rightarrow> [test_category])"

definition example_aliases :: "(string \<times> string list) list" where
  "example_aliases =
     [(''ast'', [''simple'', ''rest'']), (''all'', [''simple'', ''relevance'', ''rest''])]"

text \<open>
  The ids recorded in a log and the ids of a list of cases; well-formed data, where the
  id prefix of a case is the category of its file; the stores reached by runs with
  interactive handlers; batch handlers that answer every case.
\<close>

definition id_of :: "pyval \<Rightarrow> pyval option" where
  "id_of entry = (case entry of PDict kvs \<Rightarrow> map_of kvs ''id'' | _ \<Rightarrow> None)"

definition recorded_ids :: "filesystem \<Rightarrow> string \<Rightarrow> pyval option list" where
  "recorded_ids fs p = map id_of (read_lines fs p)"

definition case_ids :: "test_case list \<Rightarrow> pyval option list" where
  "case_ids test_cases = map (\<lambda>test_case. Some (PStr (case_id test_case))) test_cases"

definition case_file :: "string \<Rightarrow> string \<Rightarrow> test_case \<Rightarrow> string" where
  "case_file language m test_case = file_to_write language m (rsplit_head (case_id test_case))"

definition wf_data :: "datafiles \<Rightarrow> string \<Rightarrow> bool" where
  "wf_data data language =
     list_all (\<lambda>(test_category, filename).
        case data (data_path language filename) of
          None \<Rightarrow> True
        | Some test_cases \<Rightarrow>
            list_all (\<lambda>test_case. rsplit_head (case_id test_case) = test_category) test_cases)
       TEST_FILE_MAPPING"

definition interactive_map :: "(string \<Rightarrow> 'a handler option) \<Rightarrow> bool" where
  "interactive_map handler_map =
     (\<forall>name h. handler_map name = Some h \<longrightarrow> model_style h \<noteq> OSSMODEL)"

definition prefix_invariant :: "datafiles \<Rightarrow> string \<Rightarrow> filesystem \<Rightarrow> bool" where
  "prefix_invariant data language fs =
     (\<forall>name c f tcs. (c, f) \<in> set TEST_FILE_MAPPING \<longrightarrow> data (data_path language f) = Some tcs \<longrightarrow>
        prefix (recorded_ids fs (file_to_write language name c)) (case_ids tcs))"

inductive reachable :: "datafiles \<Rightarrow> 'a world \<Rightarrow> bool"
  for data :: datafiles where
  no_logs: "files (store w) = Map.empty \<Longrightarrow> reachable data w"
| outside: "reachable data w \<Longrightarrow> store w' = store w \<Longrightarrow> reachable data w'"
| run: "reachable data w \<Longrightarrow> wf_data data language \<Longrightarrow> set_order enum \<Longrightarrow>
        interactive_map handler_map \<Longrightarrow>
        main enum coll handler_map cohere data language test_category_args models w = (err, w') \<Longrightarrow>
        reachable data w'"


definition run_name :: "bool \<Rightarrow> string \<Rightarrow> string" where
  "run_name cohere name0 =
     (if cohere \<and> contains ''command-r-plus'' name0 then name0 @ ''-optimized'' else name0)"

section \<open>Strings and paths\<close>

lemma contains_iff: "contains sub s \<longleftrightarrow> (\<exists>ps ss. s = ps @ sub @ ss)"
proof (induction s)
  case Nil
  then show ?case by auto
next
  case (Cons c cs)
  show ?case
  proof
    assume "contains sub (c # cs)"
    then consider "prefix sub (c # cs)" | "contains sub cs" by auto
    then show "\<exists>ps ss. c # cs = ps @ sub @ ss"
    proof cases
      case 1
      then obtain ss where "c # cs = sub @ ss" by (auto simp: prefix_def)
      then have "c # cs = [] @ sub @ ss" by simp
      then show ?thesis by blast
    next
      case 2
      with Cons obtain ps ss where "cs = ps @ sub @ ss" by auto
      then have "c # cs = (c # ps) @ sub @ ss" by simp
      then show ?thesis by blast
    qed
  next
    assume "\<exists>ps ss. c # cs = ps @ sub @ ss"
    then obtain ps ss where eq: "c # cs = ps @ sub @ ss" by blast
    show "contains sub (c # cs)"
    proof (cases ps)
      case Nil
      with eq have "prefix sub (c # cs)" by (auto simp: prefix_def)
      then show ?thesis by simp
    next
      case (Cons p ps')
      with eq have "cs = ps' @ sub @ ss" by simp
      with Cons.IH show ?thesis by auto
    qed
  qed
qed

lemma rsplit_head_append:
  assumes "CHR ''_'' \<notin> set i"
  shows "rsplit_head (c @ CHR ''_'' # i) = c"
proof -
  have "dropWhile (\<lambda>x. x \<noteq> CHR ''_'') (rev i @ CHR ''_'' # rev c) = CHR ''_'' # rev c"
    using assms by (subst dropWhile_append2) auto
  then show ?thesis by (simp add: rsplit_head_def)
qed

lemma str_replace_no_slash: "CHR ''/'' \<notin> set (str_replace ''/'' ''_'' s)"
proof (induction s rule: length_induct)
  case (1 s)
  show ?case
  proof (cases s)
    case Nil
    then show ?thesis by (simp add: str_replace.simps)
  next
    case (Cons c cs)
    show ?thesis
    proof (cases "c = CHR ''/''")
      case True
      with Cons have "str_replace ''/'' ''_'' s = ''_'' @ str_replace ''/'' ''_'' cs"
        by (subst str_replace.simps) simp
      moreover have "CHR ''/'' \<notin> set (str_replace ''/'' ''_'' cs)"
        using 1 Cons by simp
      ultimately show ?thesis by simp
    next
      case False
      with Cons have "str_replace ''/'' ''_'' s = c # str_replace ''/'' ''_'' cs"
        by (subst str_replace.simps) simp
      moreover have "CHR ''/'' \<notin> set (str_replace ''/'' ''_'' cs)"
        using 1 Cons by simp
      ultimately show ?thesis using False by simp
    qed
  qed
qed

lemma split_at_slash:
  assumes "CHR ''/'' \<notin> set x" "CHR ''/'' \<notin> set x'" "x @ CHR ''/'' # y = x' @ CHR ''/'' # y'"
  shows "x = x' \<and> y = y'"
proof -
  have "takeWhile (\<lambda>c. c \<noteq> CHR ''/'') (x @ CHR ''/'' # y) = x"
    using assms(1) by (subst takeWhile_append2) auto
  moreover have "takeWhile (\<lambda>c. c \<noteq> CHR ''/'') (x' @ CHR ''/'' # y') = x'"
    using assms(2) by (subst takeWhile_append2) auto
  ultimately have "x = x'" using assms(3) by simp
  with assms(3) show ?thesis by simp
qed


lemma replace_leaf:
  "list_all (\<lambda>(c, f). str_replace ''.json'' ''_result.json'' f
      = ''gorilla_openfunctions_v1_test_'' @ c @ ''_result.json'') TEST_FILE_MAPPING"
  by code_simp

lemma result_path_leaf:
  assumes "(c, f) \<in> set TEST_FILE_MAPPING"
  shows "result_path language m f = file_to_write language m c"
proof -
  have "str_replace ''.json'' ''_result.json'' f
          = ''gorilla_openfunctions_v1_test_'' @ c @ ''_result.json''"
    using assms replace_leaf unfolding list_all_iff by blast
  then show ?thesis
    by (simp add: result_path_def file_to_write_def result_dir_def model_name_dir_def)
qed

section \<open>The result store\<close>

lemma read_lines_append_line:
  "read_lines (append_line q e fs) p = read_lines fs p @ (if q = p then [e] else [])"
  by (simp add: read_lines_def append_line_def)


lemma parent_dir_append:
  "CHR ''/'' \<notin> set name \<Longrightarrow> parent_dir (d @ CHR ''/'' # name) = d"
proof -
  assume "CHR ''/'' \<notin> set name"
  then have "dropWhile (\<lambda>c. c \<noteq> CHR ''/'') (rev name @ CHR ''/'' # rev d) = CHR ''/'' # rev d"
    by (subst dropWhile_append2) auto
  then show ?thesis by (simp add: parent_dir_def)
qed

lemma file_parent:
  "CHR ''/'' \<notin> set c \<Longrightarrow> parent_dir (file_to_write language m c) = result_dir language m"
proof -
  assume "CHR ''/'' \<notin> set c"
  then have "CHR ''/'' \<notin> set (''gorilla_openfunctions_v1_test_'' @ c @ ''_result.json'')"
    by simp
  from parent_dir_append [OF this, of "result_dir language m"] show ?thesis
    by (simp add: file_to_write_def)
qed

lemma makedirs_self: "p \<in> dirs (makedirs p fs)"
  by (simp add: makedirs_def path_prefixes_def)


lemma files_makedirs: "files (makedirs d fs) = files fs"
  by (simp add: makedirs_def)

lemma read_lines_makedirs: "read_lines (makedirs d fs) p = read_lines fs p"
  by (simp add: read_lines_def makedirs_def)

lemma read_lines_no_files: "read_lines no_files p = []"
  by (simp add: read_lines_def no_files_def)


lemma open_append_exists:
  "parent_dir p \<in> dirs fs \<Longrightarrow> open_append p e fs = Inr (append_line p e fs)"
  by (simp add: open_append_def)











lemma simple_log_path: "result_path ''en'' ''m'' simple_file = simple_log"
  unfolding result_path_def simple_file_def simple_log_def by code_simp

lemma rest_log_path: "result_path ''en'' ''m'' rest_file \<noteq> simple_log"
  unfolding result_path_def rest_file_def simple_log_def by code_simp







section \<open>The selector\<close>

lemma count_lines:
  "num_existing_result fs language m f = length (read_lines fs (result_path language m f))"
  by (simp add: num_existing_result_def read_lines_def split: option.splits)

lemma collect_loop_all:
  assumes "\<forall>f \<in> set fnames. \<exists>cases. data (data_path language f) = Some cases"
  shows "collect_loop data fs language m acc fnames =
     Inr (acc @ concat (map (\<lambda>f. drop (num_existing_result fs language m f)
                                (the (data (data_path language f)))) fnames))"
  using assms by (induction fnames arbitrary: acc) auto

text \<open>
  C3, as stated: the completed-count counts only the records whose id prefix is the
  category.  It fails on a log of category \<open>simple\<close> holding a record of id
  \<open>rest_0\<close>: the count is 1, with no matching record.
\<close>

theorem count_ignores_ids_counterexample:
  "num_existing_result foreign_record_store ''en'' ''m'' simple_file
     \<noteq> length (matching_records ''simple''
                 (read_lines foreign_record_store (result_path ''en'' ''m'' simple_file)))"
  by (simp add: num_existing_result_def simple_log_path foreign_record_store_def no_files_def
      read_lines_def matching_records_def example_record_def entry_category_def rsplit_head_def)

text \<open>
  C3, amended: the completed-count is the number of lines of the log of the model and
  category (0 when the file is absent), whatever ids the lines carry: appending any entry
  to that log raises the count by one.
\<close>

theorem count_is_line_count:
  "num_existing_result fs language m f = length (read_lines fs (result_path language m f))
   \<and> num_existing_result (append_line (result_path language m f) entry fs) language m f
       = num_existing_result fs language m f + 1"
  by (simp add: num_existing_result_def read_lines_def append_line_def split: option.splits)

text \<open>
  C5: when the data files exist, the selector returns, file by file, the cases of the
  file without the first \<open>c\<close>, where \<open>c\<close> is the number of records of the log, in
  the order of the file; for one file of \<open>n\<close> cases these are \<open>n - c\<close> cases.  With
  the cases \<open>simple_0\<close>, \<open>simple_1\<close>, \<open>simple_2\<close> and one record it returns
  \<open>simple_1\<close>, \<open>simple_2\<close>.
\<close>

theorem selector_skips_recorded:
  "((\<forall>f \<in> set fnames. \<exists>cases. data (data_path language f) = Some cases) \<longrightarrow>
     collect_test_cases data fs language fnames m =
       Inr (concat (map (\<lambda>f. drop (length (read_lines fs (result_path language m f)))
                                (the (data (data_path language f)))) fnames)))
   \<and> (\<forall>f cases. data (data_path language f) = Some cases \<longrightarrow>
        collect_test_cases data fs language [f] m
          = Inr (drop (length (read_lines fs (result_path language m f))) cases)
        \<and> length (drop (length (read_lines fs (result_path language m f))) cases)
          = length cases - length (read_lines fs (result_path language m f)))
   \<and> collect_test_cases example_data one_record_store ''en'' [simple_file] ''m''
        = Inr [example_case ''simple_1'', example_case ''simple_2'']"
proof (intro conjI impI allI)
  assume "\<forall>f \<in> set fnames. \<exists>cases. data (data_path language f) = Some cases"
  then show "collect_test_cases data fs language fnames m =
       Inr (concat (map (\<lambda>f. drop (length (read_lines fs (result_path language m f)))
                                (the (data (data_path language f)))) fnames))"
    unfolding collect_test_cases_def
    by (simp add: collect_loop_all count_lines)
next
  fix f cases
  assume "data (data_path language f) = Some cases"
  then show "collect_test_cases data fs language [f] m
          = Inr (drop (length (read_lines fs (result_path language m f))) cases)"
    by (simp add: collect_test_cases_def count_lines)
next
  fix f cases
  show "length (drop (length (read_lines fs (result_path language m f))) cases)
          = length cases - length (read_lines fs (result_path language m f))"
    by simp
next
  have "example_data (data_path ''en'' simple_file)
          = Some [example_case ''simple_0'', example_case ''simple_1'', example_case ''simple_2'']"
    by (simp add: example_data_def data_path_def simple_file_def)
  moreover have "num_existing_result one_record_store ''en'' ''m'' simple_file = 1"
    by (simp add: num_existing_result_def simple_log_path one_record_store_def no_files_def)
  ultimately show "collect_test_cases example_data one_record_store ''en'' [simple_file] ''m''
        = Inr [example_case ''simple_1'', example_case ''simple_2'']"
    by (simp add: collect_test_cases_def)
qed

theorem selector_skips_recorded_witness:
  "collect_test_cases example_data one_record_store ''en'' [rest_file, simple_file] ''m''
     = Inr [example_case ''rest_0'', example_case ''rest_1'',
            example_case ''simple_1'', example_case ''simple_2'']"
proof -
  have d1: "example_data (data_path ''en'' simple_file)
          = Some [example_case ''simple_0'', example_case ''simple_1'', example_case ''simple_2'']"
    by (simp add: example_data_def data_path_def simple_file_def)
  have d2: "example_data (data_path ''en'' rest_file)
          = Some [example_case ''rest_0'', example_case ''rest_1'']"
    by (simp add: example_data_def data_path_def rest_file_def)
  have h: "\<forall>f \<in> set [rest_file, simple_file]. \<exists>cases. example_data (data_path ''en'' f) = Some cases"
    using d1 d2 by simp
  have l1: "read_lines one_record_store (result_path ''en'' ''m'' simple_file)
              = [example_record ''simple_0'']"
    by (simp add: read_lines_def simple_log_path one_record_store_def no_files_def)
  have l2: "read_lines one_record_store (result_path ''en'' ''m'' rest_file) = []"
    using rest_log_path by (simp add: read_lines_def one_record_store_def no_files_def)
  show ?thesis
    using selector_skips_recorded [of "[rest_file, simple_file]" example_data "''en''"
        one_record_store "''m''"] h
    by (simp add: d1 d2 l1 l2)
qed

section \<open>The retry loop\<close>

lemma retry_loop_done:
  "\<not> n < RETRY_LIMIT \<Longrightarrow> retry_loop h q f c n vars w = (None, vars, w)"
  by (simp add: retry_loop.simps)

lemma retry_loop_returns:
  "n < RETRY_LIMIT \<Longrightarrow> inference h (adapter w) q f c = (Returns r md, a) \<Longrightarrow>
     retry_loop h q f c n vars w
       = (None, Some (r, md), w\<lparr>adapter := a, calls := calls w @ [(q, f, c)]\<rparr>)"
  by (simp add: retry_loop.simps)

lemma retry_loop_fatal:
  "n < RETRY_LIMIT \<Longrightarrow> inference h (adapter w) q f c = (Raises e, a) \<Longrightarrow> \<not> rate_limited e \<Longrightarrow>
     retry_loop h q f c n vars w
       = (Some (Raised e), vars, w\<lparr>adapter := a, calls := calls w @ [(q, f, c)]\<rparr>)"
  by (simp add: retry_loop.simps)

lemma retry_loop_transient:
  "n < RETRY_LIMIT \<Longrightarrow> inference h (adapter w) q f c = (Raises e, a) \<Longrightarrow> rate_limited e \<Longrightarrow>
     retry_loop h q f c n vars w
       = retry_loop h q f c (n + 1) vars
           (w\<lparr>adapter := a, calls := calls w @ [(q, f, c)], slept := slept w + RETRY_DELAY\<rparr>)"
  by (subst retry_loop.simps) simp

lemma retry_loop_effects:
  "retry_loop h q f c n vars w = (err, vars', w') \<Longrightarrow>
     store w' = store w \<and> slept w \<le> slept w'
     \<and> (\<exists>k. calls w' = calls w @ replicate k (q, f, c)
            \<and> (n < RETRY_LIMIT \<longrightarrow> 1 \<le> k) \<and> k \<le> RETRY_LIMIT - n)"
proof (induction h q f c n vars w rule: retry_loop.induct)
  case (1 h q f c n vars w)
  show ?case
  proof (cases "n < RETRY_LIMIT")
    case False
    with 1 have "w' = w" by (simp add: retry_loop_done)
    then show ?thesis using False by simp
  next
    case True
    obtain out a where oa: "inference h (adapter w) q f c = (out, a)" by force
    let ?w1 = "w\<lparr>adapter := a, calls := calls w @ [(q, f, c)]\<rparr>"
    have one: "calls ?w1 = calls w @ replicate 1 (q, f, c) \<and> 1 \<le> RETRY_LIMIT - n"
      using True by simp
    show ?thesis
    proof (cases out)
      case (Returns r md)
      with True oa 1 have "w' = ?w1" by (simp add: retry_loop_returns)
      then show ?thesis using one by (intro conjI exI [of _ 1]) simp_all
    next
      case (Raises e)
      show ?thesis
      proof (cases "rate_limited e")
        case False
        with True oa Raises 1 have "w' = ?w1" by (simp add: retry_loop_fatal)
        then show ?thesis using one by (intro conjI exI [of _ 1]) simp_all
      next
        case rl: True
        let ?w2 = "?w1\<lparr>slept := slept ?w1 + RETRY_DELAY\<rparr>"
        have "retry_loop h q f c (n + 1) vars ?w2 = (err, vars', w')"
          using retry_loop_transient [OF True _ rl, of h w q f c a vars] oa Raises "1.prems"
          by simp
        then have ih: "store w' = store ?w2 \<and> slept ?w2 \<le> slept w'
          \<and> (\<exists>k. calls w' = calls ?w2 @ replicate k (q, f, c)
             \<and> (n + 1 < RETRY_LIMIT \<longrightarrow> 1 \<le> k) \<and> k \<le> RETRY_LIMIT - (n + 1))"
          using "1.IH" [OF True refl oa [symmetric] refl Raises rl] by simp
        then obtain k where k: "calls w' = calls ?w2 @ replicate k (q, f, c)"
          "k \<le> RETRY_LIMIT - (n + 1)" by blast
        have "calls w' = calls w @ replicate (Suc k) (q, f, c)"
          using k(1) by (simp add: replicate_app_Cons_same)
        moreover have "Suc k \<le> RETRY_LIMIT - n" using k(2) True by simp
        ultimately show ?thesis using ih by (intro conjI exI [of _ "Suc k"]) simp_all
      qed
    qed
  qed
qed

lemma example_errors:
  "rate_limited rate_limit_error" "\<not> rate_limited auth_error"
  unfolding rate_limit_error_def auth_error_def by code_simp+

text \<open>
  The cases of one attempt.  A failure is retried exactly when its message contains
  \<open>rate limit reached\<close> (in any case of letters) or its status code is 429, 503 or
  500.  Any other failure leaves the loop at once as the error of the run, after that one
  call and with no sleep.  A retried failure with a retry remaining adds the fixed delay to
  the time slept and is followed by at least one more call with the same arguments.
\<close>

lemma retry_loop_cases:
  "(rate_limited e \<longleftrightarrow>
      (\<exists>ps ss. lower (message e) = ps @ ''rate limit reached'' @ ss)
      \<or> status_code e = Some 429 \<or> status_code e = Some 503 \<or> status_code e = Some 500)
   \<and> (n < RETRY_LIMIT \<and> inference h (adapter w) q f c = (Raises e, a) \<and> \<not> rate_limited e \<longrightarrow>
        retry_loop h q f c n vars w
          = (Some (Raised e), vars, w\<lparr>adapter := a, calls := calls w @ [(q, f, c)]\<rparr>))
   \<and> (n + 1 < RETRY_LIMIT \<and> inference h (adapter w) q f c = (Raises e, a) \<and> rate_limited e \<longrightarrow>
        (\<exists>err vars' w'.
           retry_loop h q f c n vars w = (err, vars', w')
           \<and> retry_loop h q f c (n + 1) vars
                (w\<lparr>adapter := a, calls := calls w @ [(q, f, c)],
                    slept := slept w + RETRY_DELAY\<rparr>) = (err, vars', w')
           \<and> slept w + RETRY_DELAY \<le> slept w'
           \<and> (\<exists>k. 1 \<le> k \<and> calls w' = calls w @ (q, f, c) # replicate k (q, f, c))))"
proof (intro conjI impI)
  show "rate_limited e \<longleftrightarrow>
      (\<exists>ps ss. lower (message e) = ps @ ''rate limit reached'' @ ss)
      \<or> status_code e = Some 429 \<or> status_code e = Some 503 \<or> status_code e = Some 500"
    by (auto simp: rate_limited_def contains_iff split: option.splits)
next
  assume "n < RETRY_LIMIT \<and> inference h (adapter w) q f c = (Raises e, a) \<and> \<not> rate_limited e"
  then show "retry_loop h q f c n vars w
          = (Some (Raised e), vars, w\<lparr>adapter := a, calls := calls w @ [(q, f, c)]\<rparr>)"
    by (simp add: retry_loop_fatal)
next
  assume a: "n + 1 < RETRY_LIMIT \<and> inference h (adapter w) q f c = (Raises e, a) \<and> rate_limited e"
  let ?w2 = "w\<lparr>adapter := a, calls := calls w @ [(q, f, c)], slept := slept w + RETRY_DELAY\<rparr>"
  obtain err vars' w' where r: "retry_loop h q f c (n + 1) vars ?w2 = (err, vars', w')"
    using prod_cases3 by blast
  from a have step: "retry_loop h q f c n vars w = retry_loop h q f c (n + 1) vars ?w2"
    by (intro retry_loop_transient) auto
  from retry_loop_effects [OF r] a obtain k where
    k: "slept ?w2 \<le> slept w'" "calls w' = calls ?w2 @ replicate k (q, f, c)" "1 \<le> k"
    by auto
  show "\<exists>err vars' w'.
           retry_loop h q f c n vars w = (err, vars', w')
           \<and> retry_loop h q f c (n + 1) vars ?w2 = (err, vars', w')
           \<and> slept w + RETRY_DELAY \<le> slept w'
           \<and> (\<exists>k. 1 \<le> k \<and> calls w' = calls w @ (q, f, c) # replicate k (q, f, c))"
    using step r k by (intro exI [of _ err] exI [of _ vars'] exI [of _ w'] conjI exI [of _ k]) simp_all
qed

lemma retry_loop_cases_example:
  "retry_loop scripted_handler (PStr ''q'') (PList []) ''simple'' 0 None
     (example_world [Raises rate_limit_error, Raises auth_error])
   = (Some (Raised auth_error), None,
      \<lparr>store = no_files, adapter = [],
       calls = [(PStr ''q'', PList [], ''simple''), (PStr ''q'', PList [], ''simple'')],
       slept = 65\<rparr>)"
proof -
  let ?c = "(PStr ''q'', PList [], ''simple'')"
  let ?w0 = "example_world [Raises rate_limit_error, Raises auth_error]"
  let ?w1 = "\<lparr>store = no_files, adapter = [Raises auth_error], calls = [?c], slept = 65\<rparr>"
  have i0: "inference scripted_handler (adapter ?w0) (PStr ''q'') (PList []) ''simple''
              = (Raises rate_limit_error, [Raises auth_error])"
    by (simp add: scripted_handler_def scripted_inference_def example_world_def)
  have i1: "inference scripted_handler (adapter ?w1) (PStr ''q'') (PList []) ''simple''
              = (Raises auth_error, [])"
    by (simp add: scripted_handler_def scripted_inference_def)
  have s0: "retry_loop scripted_handler (PStr ''q'') (PList []) ''simple'' 0 None ?w0
      = retry_loop scripted_handler (PStr ''q'') (PList []) ''simple'' 1 None ?w1"
  proof -
    have "0 + 1 < RETRY_LIMIT
        \<and> inference scripted_handler (adapter ?w0) (PStr ''q'') (PList []) ''simple''
            = (Raises rate_limit_error, [Raises auth_error])
        \<and> rate_limited rate_limit_error"
      using i0 example_errors(1) by (simp add: RETRY_LIMIT_def)
    with retry_loop_cases [of rate_limit_error 0 scripted_handler ?w0 "PStr ''q''"
        "PList []" "''simple''" "[Raises auth_error]" None]
    obtain err vars' w' where
      "retry_loop scripted_handler (PStr ''q'') (PList []) ''simple'' 0 None ?w0 = (err, vars', w')"
      "retry_loop scripted_handler (PStr ''q'') (PList []) ''simple'' (0 + 1) None
         (?w0\<lparr>adapter := [Raises auth_error], calls := calls ?w0 @ [?c],
               slept := slept ?w0 + RETRY_DELAY\<rparr>) = (err, vars', w')"
      by blast
    then show ?thesis by (simp add: example_world_def RETRY_DELAY_def)
  qed
  have s1: "retry_loop scripted_handler (PStr ''q'') (PList []) ''simple'' 1 None ?w1
      = (Some (Raised auth_error), None, ?w1\<lparr>adapter := [], calls := calls ?w1 @ [?c]\<rparr>)"
    using retry_loop_cases [of auth_error 1 scripted_handler ?w1 "PStr ''q''"
        "PList []" "''simple''" "[]" None] i1 example_errors(2)
    by (simp add: RETRY_LIMIT_def)
  show ?thesis using s0 s1 by simp
qed

lemma scripted_step:
  "inference scripted_handler (out # later) q f c = (out, later)"
  "model_name scripted_handler = ''m''"
  by (simp_all add: scripted_handler_def scripted_inference_def)

lemma exhausted_retry:
  "retry_loop scripted_handler q f c 0 vars
     \<lparr>store = fs, adapter = Raises rate_limit_error # Raises rate_limit_error
         # Raises rate_limit_error # later, calls = cs, slept = t\<rparr>
   = (None, vars, \<lparr>store = fs, adapter = later, calls = cs @ [(q, f, c), (q, f, c), (q, f, c)],
                    slept = t + 195\<rparr>)"
proof -
  have 0: "(0::nat) < RETRY_LIMIT" "(0::nat) + 1 < RETRY_LIMIT" "(0::nat) + 1 + 1 < RETRY_LIMIT"
    "\<not> (0::nat) + 1 + 1 + 1 < RETRY_LIMIT"
    by (simp_all add: RETRY_LIMIT_def)
  show ?thesis
    apply (subst retry_loop_transient [OF 0(1) _ example_errors(1)])
     apply (simp add: scripted_step)
    apply (subst retry_loop_transient [OF 0(2) _ example_errors(1)])
     apply (simp add: scripted_step)
    apply (subst retry_loop_transient [OF 0(3) _ example_errors(1)])
     apply (simp add: scripted_step)
    apply (subst retry_loop_done [OF 0(4)])
    apply (simp add: RETRY_DELAY_def)
    done
qed

lemma returning_retry:
  "retry_loop scripted_handler q f c 0 vars
     \<lparr>store = fs, adapter = Returns r md # later, calls = cs, slept = t\<rparr>
   = (None, Some (r, md), \<lparr>store = fs, adapter = later, calls = cs @ [(q, f, c)], slept = t\<rparr>)"
  by (subst retry_loop_returns [where r = r and md = md and a = later])
     (simp_all add: RETRY_LIMIT_def scripted_step)

text \<open>
  C4, on the code: a failure with a rate-limit signal on the last attempt is neither
  retried nor raised.  After three such failures in a row the loop has slept three times
  and ends without an error, leaving the local variables as they were: the third failure
  is slept on and then swallowed.
\<close>

theorem last_transient_failure_is_swallowed:
  "retry_loop scripted_handler (PStr ''q'') (PList []) ''simple'' 0 None
     (example_world [Raises rate_limit_error, Raises rate_limit_error, Raises rate_limit_error])
   = (None, None,
      \<lparr>store = no_files, adapter = [],
       calls = [(PStr ''q'', PList [], ''simple''), (PStr ''q'', PList [], ''simple''),
                (PStr ''q'', PList [], ''simple'')],
       slept = 195\<rparr>)"
  by (simp add: example_world_def exhausted_retry)

section \<open>One test case\<close>




lemma handler_write_record:
  "map_of kvs ''id'' = Some (PStr s) \<Longrightarrow>
     handler_write m (PDict kvs) language fs
       = (case open_append (file_to_write language m (rsplit_head s)) (PDict kvs)
                 (makedirs (result_dir language m) fs) of
            Inl err \<Rightarrow> (Some err, makedirs (result_dir language m) fs)
          | Inr fs' \<Rightarrow> (None, fs'))"
  by (simp add: handler_write_def entry_category_def Let_def split: sum.splits)

lemma handler_write_slash_free:
  assumes "map_of kvs ''id'' = Some (PStr s)" "CHR ''/'' \<notin> set (rsplit_head s)"
  shows "handler_write m (PDict kvs) language fs
       = (None, append_line (file_to_write language m (rsplit_head s)) (PDict kvs)
                  (makedirs (result_dir language m) fs))"
proof -
  have "parent_dir (file_to_write language m (rsplit_head s))
      \<in> dirs (makedirs (result_dir language m) fs)"
    using assms(2) by (simp add: file_parent makedirs_self)
  then show ?thesis
    by (simp add: handler_write_record [OF assms(1)] open_append_exists)
qed

lemma handler_write_cases:
  assumes "map_of kvs ''id'' = Some (PStr s)"
  shows "handler_write m (PDict kvs) language fs
       = (None, append_line (file_to_write language m (rsplit_head s)) (PDict kvs)
                  (makedirs (result_dir language m) fs))
     \<or> (\<exists>err. handler_write m (PDict kvs) language fs
           = (Some err, makedirs (result_dir language m) fs))"
  unfolding handler_write_record [OF assms]
  by (cases "parent_dir (file_to_write language m (rsplit_head s)) = []
        \<or> parent_dir (file_to_write language m (rsplit_head s))
            \<in> dirs (makedirs (result_dir language m) fs)")
     (simp_all add: open_append_def)

lemma write_result:
  "CHR ''/'' \<notin> set (rsplit_head (case_id tc)) \<Longrightarrow>
   handler_write m (result_to_write tc r md) language fs
     = (None, append_line (file_to_write language m (rsplit_head (case_id tc)))
                (result_to_write tc r md) (makedirs (result_dir language m) fs))"
  unfolding result_to_write_def by (rule handler_write_slash_free) simp_all

lemma write_result_cases:
  "handler_write m (result_to_write tc r md) language fs
     = (None, append_line (file_to_write language m (rsplit_head (case_id tc)))
                (result_to_write tc r md) (makedirs (result_dir language m) fs))
   \<or> (\<exists>err. handler_write m (result_to_write tc r md) language fs
         = (Some err, makedirs (result_dir language m) fs))"
  unfolding result_to_write_def by (rule handler_write_cases) simp

lemma interactive_case_error:
  "retry_loop h (question tc) (normalize_functions (function_field tc))
      (rsplit_head (case_id tc)) 0 vars w = (Some err, vars', w') \<Longrightarrow>
   interactive_case h language vars tc w = (Some err, vars', w')"
  by (simp add: interactive_case_def)

lemma interactive_case_unbound:
  "retry_loop h (question tc) (normalize_functions (function_field tc))
      (rsplit_head (case_id tc)) 0 vars w = (None, None, w') \<Longrightarrow>
   interactive_case h language vars tc w = (Some (UnboundLocalError ''result''), None, w')"
  by (simp add: interactive_case_def)

lemma interactive_case_written:
  "retry_loop h (question tc) (normalize_functions (function_field tc))
      (rsplit_head (case_id tc)) 0 vars w = (None, Some (r, md), w') \<Longrightarrow>
   CHR ''/'' \<notin> set (rsplit_head (case_id tc)) \<Longrightarrow>
   interactive_case h language vars tc w
     = (None, Some (r, md),
        w'\<lparr>store := append_line (file_to_write language (model_name h) (rsplit_head (case_id tc)))
                 (result_to_write tc r md)
                 (makedirs (result_dir language (model_name h)) (store w'))\<rparr>)"
  by (simp add: interactive_case_def write_result)

lemma interactive_case_write:
  "retry_loop h (question tc) (normalize_functions (function_field tc))
      (rsplit_head (case_id tc)) 0 vars w = (None, Some (r, md), w') \<Longrightarrow>
   interactive_case h language vars tc w
     = (fst (handler_write (model_name h) (result_to_write tc r md) language (store w')),
        Some (r, md),
        w'\<lparr>store := snd (handler_write (model_name h) (result_to_write tc r md) language
                        (store w'))\<rparr>)"
  by (simp add: interactive_case_def split: prod.splits)

lemma example_paths:
  "result_dir ''en'' ''m'' = ''./result/en/m''"
  "file_to_write ''en'' ''m'' ''simple'' = simple_log"
  unfolding file_to_write_def result_dir_def model_name_dir_def simple_log_def by code_simp+

lemma example_case_fields:
  "question (example_case i) = PStr ''q''"
  "normalize_functions (function_field (example_case i)) = PList []"
  "case_id (example_case i) = i"
  by (simp_all add: example_case_def normalize_functions_def)

lemma example_categories:
  "rsplit_head ''simple_0'' = ''simple''" "rsplit_head ''simple_1'' = ''simple''"
  "rsplit_head ''simple_2'' = ''simple''"
  by (simp_all add: rsplit_head_def)

text \<open>
  C1, on the code: after three rate-limit failures the loop ends without raising.  When
  \<open>simple_0\<close> succeeded before and \<open>simple_1\<close> exhausts its retries, the run
  ends without an error and the log holds a record for \<open>simple_1\<close> that carries the
  result of \<open>simple_0\<close>.  When the first case exhausts its retries, the run fails with
  \<open>UnboundLocalError\<close>.
\<close>

theorem exhausted_retries_write_stale_result:
  "fst (generate_results scripted_map ''en'' ''m''
          [example_case ''simple_0'', example_case ''simple_1'']
          (example_world [Returns (PStr ''answer 0'') example_metadata,
             Raises rate_limit_error, Raises rate_limit_error, Raises rate_limit_error])) = None
   \<and> read_lines (store (snd (generate_results scripted_map ''en'' ''m''
          [example_case ''simple_0'', example_case ''simple_1'']
          (example_world [Returns (PStr ''answer 0'') example_metadata,
             Raises rate_limit_error, Raises rate_limit_error, Raises rate_limit_error]))))
        simple_log
      = [result_to_write (example_case ''simple_0'') (PStr ''answer 0'') example_metadata,
         result_to_write (example_case ''simple_1'') (PStr ''answer 0'') example_metadata]
   \<and> generate_results scripted_map ''en'' ''m'' [example_case ''simple_0'']
        (example_world [Raises rate_limit_error, Raises rate_limit_error,
           Raises rate_limit_error])
      = (Some (UnboundLocalError ''result''),
         \<lparr>store = no_files, adapter = [],
          calls = [(PStr ''q'', PList [], ''simple''), (PStr ''q'', PList [], ''simple''),
                   (PStr ''q'', PList [], ''simple'')],
          slept = 195\<rparr>)"
proof -
  have h: "build_handler scripted_map ''m'' = Inr scripted_handler"
    by (simp add: build_handler_def scripted_map_def scripted_handler_def)
  have st: "model_style scripted_handler \<noteq> OSSMODEL"
    by (simp add: scripted_handler_def)
  let ?script = "[Returns (PStr ''answer 0'') example_metadata,
             Raises rate_limit_error, Raises rate_limit_error, Raises rate_limit_error]"
  let ?r0 = "result_to_write (example_case ''simple_0'') (PStr ''answer 0'') example_metadata"
  let ?r1 = "result_to_write (example_case ''simple_1'') (PStr ''answer 0'') example_metadata"
  let ?c = "(PStr ''q'', PList [], ''simple'')"
  let ?fs1 = "append_line simple_log ?r0 (makedirs ''./result/en/m'' no_files)"
  let ?w1 = "\<lparr>store = ?fs1, adapter = [Raises rate_limit_error, Raises rate_limit_error,
     Raises rate_limit_error], calls = [?c], slept = 0\<rparr>"
  have c0: "interactive_case scripted_handler ''en'' None (example_case ''simple_0'')
      (example_world ?script) = (None, Some (PStr ''answer 0'', example_metadata), ?w1)"
    by (subst interactive_case_written [where r = "PStr ''answer 0''" and md = example_metadata
          and w' = "\<lparr>store = no_files, adapter = [Raises rate_limit_error,
            Raises rate_limit_error, Raises rate_limit_error], calls = [?c], slept = 0\<rparr>"])
       (simp_all add: example_case_fields example_categories example_world_def returning_retry
          example_paths scripted_step)
  let ?w2 = "\<lparr>store = append_line simple_log ?r1 (makedirs ''./result/en/m'' ?fs1),
     adapter = [], calls = [?c, ?c, ?c, ?c], slept = 195\<rparr>"
  have c1: "interactive_case scripted_handler ''en'' (Some (PStr ''answer 0'', example_metadata))
      (example_case ''simple_1'') ?w1
      = (None, Some (PStr ''answer 0'', example_metadata), ?w2)"
    by (subst interactive_case_written [where r = "PStr ''answer 0''" and md = example_metadata
          and w' = "\<lparr>store = ?fs1, adapter = [], calls = [?c, ?c, ?c, ?c], slept = 195\<rparr>"])
       (simp_all add: example_case_fields example_categories exhausted_retry
          example_paths scripted_step)
  have g: "generate_results scripted_map ''en'' ''m''
          [example_case ''simple_0'', example_case ''simple_1''] (example_world ?script)
        = (None, ?w2)"
    by (simp add: generate_results_def h st c0 c1)
  have l: "read_lines (store ?w2) simple_log = [?r0, ?r1]"
    by (simp add: read_lines_append_line read_lines_makedirs read_lines_no_files)
  have u: "interactive_case scripted_handler ''en'' None (example_case ''simple_0'')
      (example_world [Raises rate_limit_error, Raises rate_limit_error, Raises rate_limit_error])
     = (Some (UnboundLocalError ''result''), None,
         \<lparr>store = no_files, adapter = [], calls = [?c, ?c, ?c], slept = 195\<rparr>)"
    by (subst interactive_case_unbound [where w' = "\<lparr>store = no_files, adapter = [],
          calls = [?c, ?c, ?c], slept = 195\<rparr>"])
       (simp_all add: example_case_fields example_categories example_world_def exhausted_retry)
  show ?thesis
    using g l by (simp add: generate_results_def h st u)
qed

section \<open>The batch branch\<close>







lemma build_handler_name: "build_handler handler_map name = Inr h \<Longrightarrow> model_name h = name"
  by (auto simp: build_handler_def split: option.splits)






section \<open>Resolving the categories\<close>

lemma add_test_names_sets:
  assumes "add_test_names ns (names, fnames) = Inr (names', fnames')"
    "distinct names" "distinct fnames"
  shows "distinct names' \<and> distinct fnames'
       \<and> set names' = set names \<union> set ns
       \<and> set fnames' = set fnames \<union> (\<lambda>n. the (map_of TEST_FILE_MAPPING n)) ` set ns
       \<and> (\<forall>n \<in> set ns. map_of TEST_FILE_MAPPING n \<noteq> None)"
  using assms
proof (induction ns arbitrary: names fnames)
  case Nil
  then show ?case by simp
next
  case (Cons n ns)
  then obtain f where f: "map_of TEST_FILE_MAPPING n = Some f"
    by (auto split: option.splits)
  with Cons.prems have r: "add_test_names ns (List.insert n names, List.insert f fnames)
      = Inr (names', fnames')"
    by simp
  from Cons.IH [OF r] Cons.prems(2,3)
  have "distinct names' \<and> distinct fnames'
       \<and> set names' = set (List.insert n names) \<union> set ns
       \<and> set fnames' = set (List.insert f fnames) \<union> (\<lambda>n. the (map_of TEST_FILE_MAPPING n)) ` set ns
       \<and> (\<forall>n \<in> set ns. map_of TEST_FILE_MAPPING n \<noteq> None)"
    by simp
  then show ?case using f by auto
qed

lemma parse_loop_sets:
  assumes "parse_loop coll args (names, fnames) = Inr (names', fnames')"
    "distinct names" "distinct fnames"
  shows "distinct names' \<and> distinct fnames'
       \<and> set names' = set names \<union> (\<Union>t \<in> set args. set (expansion coll t))
       \<and> set fnames' = set fnames
            \<union> (\<lambda>n. the (map_of TEST_FILE_MAPPING n)) ` (\<Union>t \<in> set args. set (expansion coll t))
       \<and> (\<forall>n \<in> (\<Union>t \<in> set args. set (expansion coll t)). map_of TEST_FILE_MAPPING n \<noteq> None)"
  using assms
proof (induction args arbitrary: names fnames)
  case Nil
  then show ?case by simp
next
  case (Cons t ts)
  have e: "(case map_of coll t of Some test_names \<Rightarrow> add_test_names test_names (names, fnames)
            | None \<Rightarrow> add_test_names [t] (names, fnames))
         = add_test_names (expansion coll t) (names, fnames)"
    by (simp add: expansion_def split: option.splits)
  from Cons.prems(1) obtain names1 fnames1 where
    a: "add_test_names (expansion coll t) (names, fnames) = Inr (names1, fnames1)"
    and r: "parse_loop coll ts (names1, fnames1) = Inr (names', fnames')"
    unfolding parse_loop.simps e by (auto split: sum.splits)
  note s1 = add_test_names_sets [OF a Cons.prems(2,3)]
  from s1 have d: "distinct names1" "distinct fnames1" by simp_all
  note s2 = Cons.IH [OF r d]
  show ?case using s1 s2 by (auto simp: image_Un)
qed

lemma parse_sets:
  assumes "set_order enum"
    "parse_test_category_argument enum coll args = Inr (names, fnames)"
  shows "distinct names \<and> distinct fnames
       \<and> set names = (\<Union>t \<in> set args. set (expansion coll t))
       \<and> set fnames = (\<lambda>n. the (map_of TEST_FILE_MAPPING n)) ` set names
       \<and> (\<forall>n \<in> set names. map_of TEST_FILE_MAPPING n \<noteq> None)"
proof -
  obtain names0 fnames0 where
    p: "parse_loop coll args ([], []) = Inr (names0, fnames0)"
    using assms(2) unfolding parse_test_category_argument_def
    by (cases "parse_loop coll args ([], [])") auto
  with assms(2) have n: "names = enum names0" and f: "fnames = enum fnames0"
    unfolding parse_test_category_argument_def by simp_all
  from parse_loop_sets [OF p] have
    s: "distinct names0" "distinct fnames0"
    "set names0 = (\<Union>t \<in> set args. set (expansion coll t))"
    "set fnames0 = (\<lambda>n. the (map_of TEST_FILE_MAPPING n)) ` set names0"
    "\<forall>n \<in> set names0. map_of TEST_FILE_MAPPING n \<noteq> None"
    by simp_all
  from assms(1) s(1) have e1: "distinct (enum names0)" "set (enum names0) = set names0"
    unfolding set_order_def by blast+
  from assms(1) s(2) have e2: "distinct (enum fnames0)" "set (enum fnames0) = set fnames0"
    unfolding set_order_def by blast+
  show ?thesis
    unfolding n f e1(2) e2(2) using e1(1) e2(1) s(3,4,5) by (intro conjI) assumption+
qed

text \<open>
  C7: whatever order the sets are listed in, the leaf categories resolved from the
  requested tokens are the union of the expansions of the tokens (an alias stands for its
  names, any other token for itself), and both the list of categories and the list of data
  files are free of duplicates: a leaf requested twice, directly or through overlapping
  aliases, is there once.
\<close>

theorem alias_expansion_is_union:
  "set_order enum \<and> parse_test_category_argument enum coll args = Inr (names, fnames) \<longrightarrow>
     distinct names \<and> distinct fnames
     \<and> set names = (\<Union>t \<in> set args. set (expansion coll t))
     \<and> set fnames = (\<lambda>n. the (map_of TEST_FILE_MAPPING n)) ` set names
     \<and> (\<forall>n \<in> set names. map_of TEST_FILE_MAPPING n \<noteq> None)"
proof
  assume "set_order enum \<and> parse_test_category_argument enum coll args = Inr (names, fnames)"
  then have "set_order enum" "parse_test_category_argument enum coll args = Inr (names, fnames)"
    by simp_all
  then show "distinct names \<and> distinct fnames
     \<and> set names = (\<Union>t \<in> set args. set (expansion coll t))
     \<and> set fnames = (\<lambda>n. the (map_of TEST_FILE_MAPPING n)) ` set names
     \<and> (\<forall>n \<in> set names. map_of TEST_FILE_MAPPING n \<noteq> None)"
    by (rule parse_sets)
qed

lemma set_order_rev: "set_order rev"
  by (simp add: set_order_def)

lemma example_lookup:
  "map_of TEST_FILE_MAPPING ''simple'' = Some ''gorilla_openfunctions_v1_test_simple.json''"
  "map_of TEST_FILE_MAPPING ''rest'' = Some ''gorilla_openfunctions_v1_test_rest.json''"
  "map_of TEST_FILE_MAPPING ''relevance'' = Some ''gorilla_openfunctions_v1_test_relevance.json''"
  unfolding TEST_FILE_MAPPING_def by simp_all

lemma example_alias_lookup:
  "map_of example_aliases ''ast'' = Some [''simple'', ''rest'']"
  "map_of example_aliases ''all'' = Some [''simple'', ''relevance'', ''rest'']"
  "map_of example_aliases ''simple'' = None"
  by (simp_all add: example_aliases_def)

lemma example_parse:
  "parse_test_category_argument rev example_aliases [''ast'', ''all'', ''simple'', ''ast'']
     = Inr ([''simple'', ''rest'', ''relevance''],
            [''gorilla_openfunctions_v1_test_simple.json'',
             ''gorilla_openfunctions_v1_test_rest.json'',
             ''gorilla_openfunctions_v1_test_relevance.json''])"
  by (simp add: parse_test_category_argument_def example_alias_lookup example_lookup)

theorem alias_expansion_is_union_witness:
  "distinct [''simple'', ''rest'', ''relevance'']
   \<and> set [''simple'', ''rest'', ''relevance'']
       = (\<Union>t \<in> set [''ast'', ''all'', ''simple'', ''ast'']. set (expansion example_aliases t))"
proof -
  have "set_order rev \<and> parse_test_category_argument rev example_aliases
      [''ast'', ''all'', ''simple'', ''ast'']
     = Inr ([''simple'', ''rest'', ''relevance''],
            [''gorilla_openfunctions_v1_test_simple.json'',
             ''gorilla_openfunctions_v1_test_rest.json'',
             ''gorilla_openfunctions_v1_test_relevance.json''])"
    using set_order_rev example_parse by (rule conjI)
  from alias_expansion_is_union [rule_format, OF this]
  show ?thesis by (elim conjE) (rule conjI)
qed

section \<open>The prefix invariant\<close>

lemma id_of_result: "id_of (result_to_write tc r md) = Some (PStr (case_id tc))"
  by (simp add: id_of_def result_to_write_def)

lemma recorded_ids_append_line:
  "recorded_ids (append_line q e fs) p = recorded_ids fs p @ (if q = p then [id_of e] else [])"
  by (simp add: recorded_ids_def read_lines_append_line)

lemma recorded_ids_makedirs: "recorded_ids (makedirs d fs) p = recorded_ids fs p"
  by (simp add: recorded_ids_def read_lines_makedirs)

lemma interactive_case_ids:
  assumes "interactive_case h language vars tc w = (err, vars', w')"
  shows "recorded_ids (store w') p = recorded_ids (store w) p
           @ (if err = None \<and> case_file language (model_name h) tc = p
              then [Some (PStr (case_id tc))] else [])"
proof -
  let ?q = "question tc" and ?f = "normalize_functions (function_field tc)"
    and ?c = "rsplit_head (case_id tc)"
  obtain e1 v1 w1 where r: "retry_loop h ?q ?f ?c 0 vars w = (e1, v1, w1)"
    using prod_cases3 by blast
  from retry_loop_effects [OF r] have st: "store w1 = store w" by simp
  show ?thesis
  proof (cases e1)
    case (Some e)
    with r assms have "err = Some e" "w' = w1" by (simp_all add: interactive_case_error)
    with st show ?thesis by simp
  next
    case None
    show ?thesis
    proof (cases v1)
      case n: None
      with None r assms have "err = Some (UnboundLocalError ''result'')" "w' = w1"
        by (simp_all add: interactive_case_unbound)
      with st show ?thesis by simp
    next
      case (Some rm)
      obtain res md where rm: "rm = (res, md)" by force
      let ?hw = "handler_write (model_name h) (result_to_write tc res md) language (store w1)"
      from None Some rm r have ic: "interactive_case h language vars tc w
          = (fst ?hw, Some (res, md), w1\<lparr>store := snd ?hw\<rparr>)"
        by (intro interactive_case_write) simp
      from write_result_cases [of "model_name h" tc res md language "store w1"]
      consider (ok) "?hw = (None, append_line (file_to_write language (model_name h) ?c)
                 (result_to_write tc res md)
                 (makedirs (result_dir language (model_name h)) (store w1)))"
        | (fail) e where "?hw = (Some e, makedirs (result_dir language (model_name h)) (store w1))"
        by blast
      then show ?thesis
      proof cases
        case ok
        with ic assms have "err = None"
          "store w' = append_line (file_to_write language (model_name h) ?c)
                 (result_to_write tc res md)
                 (makedirs (result_dir language (model_name h)) (store w1))"
          by auto
        then show ?thesis
          by (simp add: recorded_ids_append_line recorded_ids_makedirs id_of_result st case_file_def)
      next
        case fail
        with ic assms have "err = Some e"
          "store w' = makedirs (result_dir language (model_name h)) (store w1)"
          by auto
        then show ?thesis by (simp add: recorded_ids_makedirs st)
      qed
    qed
  qed
qed

lemma interactive_loop_ids:
  "interactive_loop h language vars pending w = (err, w') \<Longrightarrow>
     \<exists>j \<le> length pending. (err = None \<longrightarrow> j = length pending)
       \<and> (\<forall>p. recorded_ids (store w') p = recorded_ids (store w) p
              @ case_ids (filter (\<lambda>tc. case_file language (model_name h) tc = p) (take j pending)))"
proof (induction pending arbitrary: vars w)
  case Nil
  then show ?case by (simp add: case_ids_def)
next
  case (Cons tc pending)
  obtain e1 v1 w1 where c: "interactive_case h language vars tc w = (e1, v1, w1)"
    using prod_cases3 by blast
  note ids = interactive_case_ids [OF c]
  show ?case
  proof (cases e1)
    case (Some e)
    with c Cons.prems have "err = Some e" "w' = w1" by simp_all
    with ids Some show ?thesis
      by (intro exI [of _ 0]) (simp add: case_ids_def)
  next
    case None
    with c Cons.prems have "interactive_loop h language v1 pending w1 = (err, w')" by simp
    from Cons.IH [OF this] obtain j where j: "j \<le> length pending"
      "err = None \<longrightarrow> j = length pending"
      "\<forall>p. recorded_ids (store w') p = recorded_ids (store w1) p
              @ case_ids (filter (\<lambda>tc. case_file language (model_name h) tc = p) (take j pending))"
      by blast
    show ?thesis
    proof (intro exI [of _ "Suc j"] conjI allI impI)
      show "Suc j \<le> length (tc # pending)" using j(1) by simp
      show "Suc j = length (tc # pending)" if "err = None" using that j(2) by simp
    next
      fix p
      show "recorded_ids (store w') p = recorded_ids (store w) p
              @ case_ids (filter (\<lambda>tc. case_file language (model_name h) tc = p)
                   (take (Suc j) (tc # pending)))"
        using j(3) ids [of p] None by (simp add: case_ids_def)
    qed
  qed
qed

lemma wf_dataD:
  "wf_data data language \<Longrightarrow> (c, f) \<in> set TEST_FILE_MAPPING \<Longrightarrow>
     data (data_path language f) = Some tcs \<Longrightarrow> tc \<in> set tcs \<Longrightarrow> rsplit_head (case_id tc) = c"
  unfolding wf_data_def list_all_iff by fastforce

lemma file_to_write_eq:
  assumes "file_to_write language m c = file_to_write language m' c'"
  shows "model_name_dir m = model_name_dir m' \<and> c = c'"
proof -
  from assms have
    "model_name_dir m @ CHR ''/'' # (''gorilla_openfunctions_v1_test_'' @ c @ ''_result.json'')
     = model_name_dir m' @ CHR ''/'' # (''gorilla_openfunctions_v1_test_'' @ c' @ ''_result.json'')"
    by (simp add: file_to_write_def result_dir_def)
  then have "model_name_dir m = model_name_dir m'
     \<and> ''gorilla_openfunctions_v1_test_'' @ c @ ''_result.json''
       = ''gorilla_openfunctions_v1_test_'' @ c' @ ''_result.json''"
    using split_at_slash [OF str_replace_no_slash str_replace_no_slash]
    unfolding model_name_dir_def by blast
  then show ?thesis by simp
qed

lemma file_to_write_same_dir:
  "model_name_dir m = model_name_dir m' \<Longrightarrow> file_to_write language m c = file_to_write language m' c"
  by (simp add: file_to_write_def result_dir_def)

lemma leaf_file:
  "(c, f) \<in> set TEST_FILE_MAPPING \<Longrightarrow> f = ''gorilla_openfunctions_v1_test_'' @ c @ ''.json''"
  unfolding TEST_FILE_MAPPING_def by auto

lemma leaf_unique:
  assumes "(c, f) \<in> set TEST_FILE_MAPPING" "(c', f') \<in> set TEST_FILE_MAPPING"
  shows "c = c' \<longleftrightarrow> f = f'"
  using leaf_file [OF assms(1)] leaf_file [OF assms(2)] by simp

lemma collect_loop_exists:
  "collect_loop data fs language m acc fnames = Inr r \<Longrightarrow>
     \<forall>f \<in> set fnames. \<exists>cases. data (data_path language f) = Some cases"
  by (induction fnames arbitrary: acc) (auto split: option.splits)

lemma collect_Inr:
  assumes "collect_test_cases data fs language fnames m = Inr pending"
  shows "(\<forall>f \<in> set fnames. \<exists>cases. data (data_path language f) = Some cases)
       \<and> pending = concat (map (\<lambda>f. drop (num_existing_result fs language m f)
                                (the (data (data_path language f)))) fnames)"
proof -
  from assms have "\<forall>f \<in> set fnames. \<exists>cases. data (data_path language f) = Some cases"
    unfolding collect_test_cases_def by (rule collect_loop_exists)
  then show ?thesis
    using assms collect_loop_all [of fnames data language fs m "[]"]
    by (simp add: collect_test_cases_def)
qed

lemma filter_by_category:
  assumes "wf_data data language" "(c, f) \<in> set TEST_FILE_MAPPING"
    "distinct fnames" "set fnames \<subseteq> snd ` set TEST_FILE_MAPPING"
    "\<forall>g \<in> set fnames. \<exists>cases. data (data_path language g) = Some cases"
  shows "filter (\<lambda>tc. rsplit_head (case_id tc) = c)
           (concat (map (\<lambda>g. drop (n g) (the (data (data_path language g)))) fnames))
         = (if f \<in> set fnames then drop (n f) (the (data (data_path language f))) else [])"
  using assms(3,4,5)
proof (induction fnames)
  case Nil
  then show ?case by simp
next
  case (Cons g gs)
  from Cons.prems obtain cg where cg: "(cg, g) \<in> set TEST_FILE_MAPPING" by auto
  from Cons.prems obtain tcs where tcs: "data (data_path language g) = Some tcs" by auto
  have cat: "\<forall>tc \<in> set (drop (n g) tcs). rsplit_head (case_id tc) = cg"
    using wf_dataD [OF assms(1) cg tcs] by (auto dest: in_set_dropD)
  have ih: "filter (\<lambda>tc. rsplit_head (case_id tc) = c)
           (concat (map (\<lambda>g. drop (n g) (the (data (data_path language g)))) gs))
         = (if f \<in> set gs then drop (n f) (the (data (data_path language f))) else [])"
    using Cons by simp
  show ?case
  proof (cases "g = f")
    case True
    then have "cg = c" using leaf_unique [OF cg assms(2)] by simp
    with cat have "filter (\<lambda>tc. rsplit_head (case_id tc) = c) (drop (n g) tcs) = drop (n g) tcs"
      by (simp add: filter_id_conv)
    moreover have "f \<notin> set gs" using True Cons.prems(1) by simp
    ultimately show ?thesis using ih tcs True by simp
  next
    case False
    then have "cg \<noteq> c" using leaf_unique [OF cg assms(2)] by simp
    with cat have "filter (\<lambda>tc. rsplit_head (case_id tc) = c) (drop (n g) tcs) = []"
      by (simp add: filter_empty_conv)
    then show ?thesis using ih tcs False by simp
  qed
qed

lemma append_prefix:
  assumes "prefix ids cs" "prefix ys (drop (length ids) cs)"
  shows "prefix (ids @ ys) cs"
proof -
  from assms(1) obtain zs where cs: "cs = ids @ zs" by (auto simp: prefix_def)
  with assms(2) have "prefix ys zs" by simp
  then show ?thesis using cs by simp
qed

lemma build_handler_interactive:
  "interactive_map handler_map \<Longrightarrow> build_handler handler_map name = Inr h \<Longrightarrow>
     model_style h \<noteq> OSSMODEL"
  by (auto simp: interactive_map_def build_handler_def split: option.splits)

lemma interactive_loop_preserves:
  assumes wf: "wf_data data language"
    and inv: "prefix_invariant data language (store w)"
    and files: "distinct fnames" "set fnames \<subseteq> snd ` set TEST_FILE_MAPPING"
    and ex: "\<forall>g \<in> set fnames. \<exists>cases. data (data_path language g) = Some cases"
    and pending: "pending = concat (map (\<lambda>g. drop (num_existing_result (store w) language (model_name h) g)
                                (the (data (data_path language g)))) fnames)"
    and run: "interactive_loop h language vars pending w = (err, w')"
  shows "prefix_invariant data language (store w')"
  unfolding prefix_invariant_def
proof (intro allI impI)
  fix name c f tcs
  assume cf: "(c, f) \<in> set TEST_FILE_MAPPING" and tcs: "data (data_path language f) = Some tcs"
  let ?m = "model_name h"
  let ?P = "file_to_write language name c"
  from interactive_loop_ids [OF run] obtain j where
    j: "\<forall>p. recorded_ids (store w') p = recorded_ids (store w) p
          @ case_ids (filter (\<lambda>tc. case_file language ?m tc = p) (take j pending))"
    by blast
  from inv cf tcs have old: "prefix (recorded_ids (store w) ?P) (case_ids tcs)"
    unfolding prefix_invariant_def by blast
  show "prefix (recorded_ids (store w') ?P) (case_ids tcs)"
  proof (cases "model_name_dir ?m = model_name_dir name")
    case False
    then have "filter (\<lambda>tc. case_file language ?m tc = ?P) (take j pending) = []"
      by (auto simp: filter_empty_conv case_file_def dest: file_to_write_eq)
    with j old show ?thesis by (simp add: case_ids_def)
  next
    case True
    then have P: "?P = file_to_write language ?m c" by (rule file_to_write_same_dir [symmetric])
    have sel: "(\<lambda>tc. case_file language ?m tc = ?P) = (\<lambda>tc. rsplit_head (case_id tc) = c)"
      unfolding P case_file_def by (auto dest: file_to_write_eq)
    let ?n = "\<lambda>g. num_existing_result (store w) language ?m g"
    have n: "?n f = length (recorded_ids (store w) ?P)"
      unfolding P by (simp add: count_lines result_path_leaf [OF cf] recorded_ids_def)
    have "prefix (filter (\<lambda>tc. rsplit_head (case_id tc) = c) (take j pending))
            (filter (\<lambda>tc. rsplit_head (case_id tc) = c) pending)"
      by (intro filter_mono_prefix take_is_prefix)
    also have "filter (\<lambda>tc. rsplit_head (case_id tc) = c) pending
        = (if f \<in> set fnames then drop (?n f) (the (data (data_path language f))) else [])"
      unfolding pending by (rule filter_by_category [OF wf cf files ex])
    finally have "prefix (filter (\<lambda>tc. rsplit_head (case_id tc) = c) (take j pending))
        (drop (?n f) tcs)"
      using tcs by (auto split: if_splits)
    then have "prefix (case_ids (filter (\<lambda>tc. rsplit_head (case_id tc) = c) (take j pending)))
        (drop (length (recorded_ids (store w) ?P)) (case_ids tcs))"
      unfolding case_ids_def n drop_map by (rule map_mono_prefix)
    with old have "prefix (recorded_ids (store w) ?P
        @ case_ids (filter (\<lambda>tc. rsplit_head (case_id tc) = c) (take j pending))) (case_ids tcs)"
      by (rule append_prefix)
    then show ?thesis using j sel by simp
  qed
qed

lemma leaf_no_slash: "(c, f) \<in> set TEST_FILE_MAPPING \<Longrightarrow> CHR ''/'' \<notin> set c"
  unfolding TEST_FILE_MAPPING_def by auto

lemma file_to_write_language:
  assumes "file_to_write language m c = file_to_write language' m' c'"
    "CHR ''/'' \<notin> set c" "CHR ''/'' \<notin> set c'"
  shows "language = language'"
proof -
  let ?T = "\<lambda>c. ''gorilla_openfunctions_v1_test_'' @ c @ ''_result.json''"
  from assms(1) have "language @ CHR ''/'' # model_name_dir m @ CHR ''/'' # ?T c
      = language' @ CHR ''/'' # model_name_dir m' @ CHR ''/'' # ?T c'"
    by (simp add: file_to_write_def result_dir_def)
  then have "rev (language @ CHR ''/'' # model_name_dir m @ CHR ''/'' # ?T c)
      = rev (language' @ CHR ''/'' # model_name_dir m' @ CHR ''/'' # ?T c')"
    by (rule arg_cong)
  then have e: "rev (?T c) @ CHR ''/'' # (rev (model_name_dir m) @ CHR ''/'' # rev language)
      = rev (?T c') @ CHR ''/'' # (rev (model_name_dir m') @ CHR ''/'' # rev language')"
    by simp
  have t: "CHR ''/'' \<notin> set (rev (?T c))" "CHR ''/'' \<notin> set (rev (?T c'))"
    using assms(2,3) by simp_all
  from split_at_slash [OF t e] have
    e2: "rev (model_name_dir m) @ CHR ''/'' # rev language
       = rev (model_name_dir m') @ CHR ''/'' # rev language'"
    by simp
  have d: "CHR ''/'' \<notin> set (rev (model_name_dir m))" "CHR ''/'' \<notin> set (rev (model_name_dir m'))"
    using str_replace_no_slash by (simp_all add: model_name_dir_def)
  from split_at_slash [OF d e2] show ?thesis by simp
qed

lemma pending_leaf:
  assumes "wf_data data language" "set fnames \<subseteq> snd ` set TEST_FILE_MAPPING"
    "\<forall>g \<in> set fnames. \<exists>cases. data (data_path language g) = Some cases"
    "tc \<in> set (concat (map (\<lambda>g. drop (n g) (the (data (data_path language g)))) fnames))"
  shows "\<exists>cg g. (cg, g) \<in> set TEST_FILE_MAPPING \<and> rsplit_head (case_id tc) = cg"
proof -
  from assms(4) obtain g where g: "g \<in> set fnames"
    "tc \<in> set (drop (n g) (the (data (data_path language g))))"
    by auto
  from g(1) assms(2) obtain cg where cg: "(cg, g) \<in> set TEST_FILE_MAPPING" by auto
  from g(1) assms(3) obtain tcs where tcs: "data (data_path language g) = Some tcs" by auto
  with g(2) have "tc \<in> set tcs" by (auto dest: in_set_dropD)
  from wf_dataD [OF assms(1) cg tcs this] cg show ?thesis by blast
qed

lemma interactive_loop_other_language:
  assumes wf: "wf_data data language"
    and files: "set fnames \<subseteq> snd ` set TEST_FILE_MAPPING"
    and ex: "\<forall>g \<in> set fnames. \<exists>cases. data (data_path language g) = Some cases"
    and pending: "pending = concat (map (\<lambda>g. drop (n g) (the (data (data_path language g)))) fnames)"
    and run: "interactive_loop h language vars pending w = (err, w')"
    and other: "lang \<noteq> language"
    and inv: "prefix_invariant data lang (store w)"
  shows "prefix_invariant data lang (store w')"
  unfolding prefix_invariant_def
proof (intro allI impI)
  fix name c f tcs
  assume cf: "(c, f) \<in> set TEST_FILE_MAPPING" and tcs: "data (data_path lang f) = Some tcs"
  let ?P = "file_to_write lang name c"
  from interactive_loop_ids [OF run] obtain j where
    j: "\<forall>p. recorded_ids (store w') p = recorded_ids (store w) p
          @ case_ids (filter (\<lambda>tc. case_file language (model_name h) tc = p) (take j pending))"
    by blast
  have "case_file language (model_name h) tc \<noteq> ?P" if "tc \<in> set (take j pending)" for tc
  proof
    assume e: "case_file language (model_name h) tc = ?P"
    from that have "tc \<in> set pending" by (rule in_set_takeD)
    from pending_leaf [OF wf files ex this [unfolded pending]] obtain cg g where
      "(cg, g) \<in> set TEST_FILE_MAPPING" "rsplit_head (case_id tc) = cg"
      by blast
    then have "CHR ''/'' \<notin> set (rsplit_head (case_id tc))" using leaf_no_slash by blast
    moreover have "CHR ''/'' \<notin> set c" using cf by (rule leaf_no_slash)
    ultimately have "language = lang"
      using e unfolding case_file_def by (rule file_to_write_language [rotated])
    with other show False by simp
  qed
  then have "filter (\<lambda>tc. case_file language (model_name h) tc = ?P) (take j pending) = []"
    by (simp add: filter_empty_conv)
  moreover from inv cf tcs have "prefix (recorded_ids (store w) ?P) (case_ids tcs)"
    unfolding prefix_invariant_def by blast
  ultimately show "prefix (recorded_ids (store w') ?P) (case_ids tcs)"
    using j by (simp add: case_ids_def)
qed

lemma interactive_loop_preserves_all:
  assumes wf: "wf_data data language"
    and inv: "prefix_invariant data lang (store w)"
    and files: "distinct fnames" "set fnames \<subseteq> snd ` set TEST_FILE_MAPPING"
    and ex: "\<forall>g \<in> set fnames. \<exists>cases. data (data_path language g) = Some cases"
    and pending: "pending = concat (map (\<lambda>g. drop (num_existing_result (store w) language (model_name h) g)
                                (the (data (data_path language g)))) fnames)"
    and run: "interactive_loop h language vars pending w = (err, w')"
  shows "prefix_invariant data lang (store w')"
proof (cases "lang = language")
  case True
  with inv have "prefix_invariant data language (store w)" by simp
  from interactive_loop_preserves [OF wf this files ex pending run] True show ?thesis by simp
next
  case False
  then show ?thesis
    using inv by (rule interactive_loop_other_language [OF wf files(2) ex pending run])
qed

lemma prefix_invariant_makedirs:
  "prefix_invariant data language (makedirs d fs) = prefix_invariant data language fs"
  by (simp add: prefix_invariant_def recorded_ids_makedirs)

lemma num_existing_makedirs:
  "num_existing_result (makedirs d fs) language m f = num_existing_result fs language m f"
  by (simp add: num_existing_result_def files_makedirs)

lemma generate_results_preserves:
  assumes wf: "wf_data data language"
    and inv: "prefix_invariant data lang (store w)"
    and im: "interactive_map handler_map"
    and files: "distinct fnames" "set fnames \<subseteq> snd ` set TEST_FILE_MAPPING"
    and coll: "collect_test_cases data (store w) language fnames name = Inr pending"
    and run: "generate_results handler_map language name pending w = (err, w')"
  shows "prefix_invariant data lang (store w')"
proof (cases "build_handler handler_map name")
  case (Inl e)
  with run have "w' = w" by (simp add: generate_results_def)
  with inv show ?thesis by simp
next
  case (Inr h)
  have nm: "model_name h = name" using Inr by (rule build_handler_name)
  have "model_style h \<noteq> OSSMODEL" using im Inr by (rule build_handler_interactive)
  with Inr run have loop: "interactive_loop h language None pending w = (err, w')"
    by (simp add: generate_results_def)
  from collect_Inr [OF coll] have
    ex: "\<forall>g \<in> set fnames. \<exists>cases. data (data_path language g) = Some cases"
    and p: "pending = concat (map (\<lambda>g. drop (num_existing_result (store w) language (model_name h) g)
                                (the (data (data_path language g)))) fnames)"
    unfolding nm by simp_all
  show ?thesis
    by (rule interactive_loop_preserves_all [OF wf inv files ex p loop])
qed

lemma run_model_preserves:
  assumes wf: "wf_data data language"
    and inv: "prefix_invariant data lang (store w)"
    and im: "interactive_map handler_map"
    and files: "distinct fnames" "set fnames \<subseteq> snd ` set TEST_FILE_MAPPING"
    and run: "run_model handler_map cohere data language fnames name0 w = (err, w')"
  shows "prefix_invariant data lang (store w')"
proof -
  define name where "name = (if cohere \<and> contains ''command-r-plus'' name0
                             then name0 @ ''-optimized'' else name0)"
  define fs where "fs = makedirs (''./result/'' @ language @ ''/'' @ str_replace ''/'' ''_'' name)
                 (makedirs (''./data/'' @ language) (store w))"
  define w1 where "w1 = w\<lparr>store := fs\<rparr>"
  have inv1: "prefix_invariant data lang (store w1)"
    using inv by (simp add: w1_def fs_def prefix_invariant_makedirs)
  have r: "(case collect_test_cases data (store w1) language fnames name of
           Inl err \<Rightarrow> (Some err, w1)
         | Inr test_cases_total \<Rightarrow>
             if length test_cases_total = 0 then (None, w1)
             else generate_results handler_map language name test_cases_total w1) = (err, w')"
    using run unfolding run_model_def Let_def name_def [symmetric] fs_def [symmetric]
      w1_def [symmetric] by (simp add: w1_def)
  show ?thesis
  proof (cases "collect_test_cases data (store w1) language fnames name")
    case (Inl e)
    with r have "w' = w1" by simp
    with inv1 show ?thesis by simp
  next
    case (Inr pending)
    show ?thesis
    proof (cases "length pending = 0")
      case True
      with Inr r have "w' = w1" by simp
      with inv1 show ?thesis by simp
    next
      case False
      with Inr r have "generate_results handler_map language name pending w1 = (err, w')"
        by simp
      then show ?thesis
        by (rule generate_results_preserves [OF wf inv1 im files Inr])
    qed
  qed
qed

lemma model_loop_preserves:
  assumes wf: "wf_data data language"
    and im: "interactive_map handler_map"
    and files: "distinct fnames" "set fnames \<subseteq> snd ` set TEST_FILE_MAPPING"
  shows "prefix_invariant data lang (store w) \<Longrightarrow>
     model_loop handler_map cohere data language fnames models w = (err, w') \<Longrightarrow>
     prefix_invariant data lang (store w')"
proof (induction models arbitrary: w)
  case Nil
  then show ?case by simp
next
  case (Cons name names)
  obtain e1 w1 where r: "run_model handler_map cohere data language fnames name w = (e1, w1)"
    by force
  have inv1: "prefix_invariant data lang (store w1)"
    by (rule run_model_preserves [OF wf Cons.prems(1) im files r])
  show ?case
  proof (cases e1)
    case None
    with r Cons.prems(2) have "model_loop handler_map cohere data language fnames names w1 = (err, w')"
      by simp
    with inv1 show ?thesis by (rule Cons.IH)
  next
    case (Some e)
    with r Cons.prems(2) have "w' = w1" by simp
    with inv1 show ?thesis by simp
  qed
qed

lemma parsed_files:
  assumes "set_order enum" "parse_test_category_argument enum coll args = Inr (names, fnames)"
  shows "distinct fnames \<and> set fnames \<subseteq> snd ` set TEST_FILE_MAPPING"
proof -
  from parse_sets [OF assms] have d: "distinct fnames"
    and s: "set fnames = (\<lambda>n. the (map_of TEST_FILE_MAPPING n)) ` set names"
    and k: "\<forall>n \<in> set names. map_of TEST_FILE_MAPPING n \<noteq> None"
    by simp_all
  have "set fnames \<subseteq> snd ` set TEST_FILE_MAPPING"
  proof
    fix f assume "f \<in> set fnames"
    with s obtain n where n: "n \<in> set names" "f = the (map_of TEST_FILE_MAPPING n)" by auto
    with k obtain g where "map_of TEST_FILE_MAPPING n = Some g" by auto
    with n(2) have "(n, f) \<in> set TEST_FILE_MAPPING" by (auto dest: map_of_SomeD)
    then show "f \<in> snd ` set TEST_FILE_MAPPING" by force
  qed
  with d show ?thesis by simp
qed

lemma main_preserves:
  assumes wf: "wf_data data language"
    and im: "interactive_map handler_map" and so: "set_order enum"
    and inv: "prefix_invariant data lang (store w)"
    and run: "main enum coll handler_map cohere data language args models w = (err, w')"
  shows "prefix_invariant data lang (store w')"
proof (cases "parse_test_category_argument enum coll args")
  case (Inl e)
  with run have "w' = w" by (simp add: main_def)
  with inv show ?thesis by simp
next
  case (Inr r)
  obtain names fnames where r: "r = (names, fnames)" by force
  from parsed_files [OF so Inr [unfolded r]] have
    files: "distinct fnames" "set fnames \<subseteq> snd ` set TEST_FILE_MAPPING" by simp_all
  from run Inr r have "model_loop handler_map cohere data language fnames models w = (err, w')"
    by (simp add: main_def)
  with inv show ?thesis by (rule model_loop_preserves [OF wf im files])
qed

lemma reachable_invariant:
  "reachable data w \<Longrightarrow> prefix_invariant data lang (store w)"
proof (induction rule: reachable.induct)
  case (no_logs w)
  then show ?case
    by (simp add: prefix_invariant_def recorded_ids_def read_lines_def)
next
  case (outside w w')
  then show ?case by simp
next
  case (run w language enum handler_map coll cohere test_category_args models err w')
  from run.hyps(2,4,3) run.IH run.hyps(5) show ?case by (rule main_preserves)
qed

text \<open>
  The ids recorded in a log are a prefix of the ids of the category's cases.  Take any
  store reached from one without logs by runs of the main program with interactive
  handlers, each run in a language whose benchmark cases carry the category of their file
  as id prefix, whatever the requested categories, the models, the behaviour of the
  handlers and the errors that ended the runs.  Then for every language, model and leaf
  category the ids recorded in the log are, in order, the first \<open>k\<close> ids of the cases of
  the category, for some \<open>k\<close>.  A case that exhausts its retries is recorded under its own
  id like a successful one, so it does not break the prefix.
\<close>

lemma recorded_ids_are_a_prefix:
  "reachable data w \<and> (c, f) \<in> set TEST_FILE_MAPPING
     \<and> data (data_path language f) = Some test_cases \<longrightarrow>
   (\<exists>k \<le> length test_cases.
      recorded_ids (store w) (result_path language name f) = take k (case_ids test_cases)
      \<and> set (recorded_ids (store w) (result_path language name f))
          = set (take k (case_ids test_cases)))"
proof
  assume a: "reachable data w \<and> (c, f) \<in> set TEST_FILE_MAPPING
     \<and> data (data_path language f) = Some test_cases"
  then have "prefix_invariant data language (store w)"
    using reachable_invariant by blast
  with a have "prefix (recorded_ids (store w) (file_to_write language name c)) (case_ids test_cases)"
    unfolding prefix_invariant_def by blast
  moreover have "result_path language name f = file_to_write language name c"
    using a by (simp add: result_path_leaf)
  ultimately obtain zs where
    zs: "case_ids test_cases = recorded_ids (store w) (result_path language name f) @ zs"
    by (auto simp: prefix_def)
  let ?k = "length (recorded_ids (store w) (result_path language name f))"
  have "?k \<le> length (case_ids test_cases)" by (subst zs) simp
  then have "?k \<le> length test_cases" by (simp add: case_ids_def)
  moreover have "recorded_ids (store w) (result_path language name f)
      = take ?k (case_ids test_cases)"
    by (subst zs) simp
  ultimately show "\<exists>k \<le> length test_cases.
      recorded_ids (store w) (result_path language name f) = take k (case_ids test_cases)
      \<and> set (recorded_ids (store w) (result_path language name f))
          = set (take k (case_ids test_cases))"
    by (intro exI [of _ ?k]) simp
qed

lemma example_data_wf: "wf_data example_data ''en''"
  by (simp add: wf_data_def TEST_FILE_MAPPING_def example_data_def data_path_def
      example_case_fields rsplit_head_def)

lemma scripted_map_interactive: "interactive_map scripted_map"
  by (simp add: interactive_map_def scripted_map_def scripted_handler_def)

lemma recorded_ids_are_a_prefix_example:
  "\<exists>k \<le> 3.
     recorded_ids
       (store (snd (main rev example_aliases scripted_map False example_data ''en'' [''simple'']
          [''m''] (example_world [Returns (PStr ''answer 0'') example_metadata, Raises auth_error]))))
       (result_path ''en'' ''m'' simple_file)
     = take k (case_ids [example_case ''simple_0'', example_case ''simple_1'',
                 example_case ''simple_2''])"
proof -
  let ?w0 = "example_world [Returns (PStr ''answer 0'') example_metadata, Raises auth_error]"
  let ?r = "main rev example_aliases scripted_map False example_data ''en'' [''simple'']
          [''m''] ?w0"
  have "reachable example_data ?w0"
    by (rule reachable.no_logs) (simp add: example_world_def no_files_def)
  then have "reachable example_data (snd ?r)"
    by (rule reachable.run [OF _ example_data_wf set_order_rev scripted_map_interactive,
          where err = "fst ?r"])
       simp
  moreover have "(''simple'', simple_file) \<in> set TEST_FILE_MAPPING"
    by (simp add: TEST_FILE_MAPPING_def simple_file_def)
  moreover have "example_data (data_path ''en'' simple_file)
      = Some [example_case ''simple_0'', example_case ''simple_1'', example_case ''simple_2'']"
    by (simp add: example_data_def data_path_def simple_file_def)
  ultimately obtain k where
    "k \<le> length [example_case ''simple_0'', example_case ''simple_1'', example_case ''simple_2'']"
    "recorded_ids (store (snd ?r)) (result_path ''en'' ''m'' simple_file)
       = take k (case_ids [example_case ''simple_0'', example_case ''simple_1'',
                   example_case ''simple_2''])"
    using recorded_ids_are_a_prefix [of example_data "snd ?r" "''simple''" simple_file "''en''"
        "[example_case ''simple_0'', example_case ''simple_1'', example_case ''simple_2'']" "''m''"]
    by blast
  then show ?thesis by (intro exI [of _ k]) simp
qed

section \<open>Resuming\<close>


lemma collect_cong:
  assumes "files fs = files fs'"
  shows "collect_test_cases data fs language fnames m = collect_test_cases data fs' language fnames m"
proof -
  have n: "num_existing_result fs language m f = num_existing_result fs' language m f" for f
    using assms by (simp add: num_existing_result_def)
  have "collect_loop data fs language m acc fnames = collect_loop data fs' language m acc fnames"
    for acc
    by (induction fnames arbitrary: acc) (simp_all add: n split: option.splits)
  then show ?thesis by (simp add: collect_test_cases_def)
qed






lemma run_model_unfold:
  "run_model handler_map cohere data language fnames name0 w =
     (case collect_test_cases data (store w) language fnames (run_name cohere name0) of
        Inl err \<Rightarrow>
          (Some err,
           w\<lparr>store := makedirs (''./result/'' @ language @ ''/''
                          @ str_replace ''/'' ''_'' (run_name cohere name0))
                        (makedirs (''./data/'' @ language) (store w))\<rparr>)
      | Inr test_cases_total \<Rightarrow>
          if test_cases_total = [] then
            (None,
             w\<lparr>store := makedirs (''./result/'' @ language @ ''/''
                            @ str_replace ''/'' ''_'' (run_name cohere name0))
                          (makedirs (''./data/'' @ language) (store w))\<rparr>)
          else generate_results handler_map language (run_name cohere name0) test_cases_total
                 (w\<lparr>store := makedirs (''./result/'' @ language @ ''/''
                                @ str_replace ''/'' ''_'' (run_name cohere name0))
                              (makedirs (''./data/'' @ language) (store w))\<rparr>))"
proof -
  have c: "collect_test_cases data
          (makedirs (''./result/'' @ language @ ''/'' @ str_replace ''/'' ''_'' (run_name cohere name0))
             (makedirs (''./data/'' @ language) (store w))) language fnames (run_name cohere name0)
        = collect_test_cases data (store w) language fnames (run_name cohere name0)"
    by (rule collect_cong) (simp add: files_makedirs)
  show ?thesis
  proof (cases "collect_test_cases data (store w) language fnames (run_name cohere name0)")
    case (Inl e)
    with c show ?thesis
      unfolding run_model_def Let_def run_name_def [symmetric] by simp
  next
    case (Inr pending)
    with c show ?thesis
      unfolding run_model_def Let_def run_name_def [symmetric] by (cases "pending = []") simp_all
  qed
qed









lemma example_parse_simple:
  "parse_test_category_argument rev example_aliases [''simple''] = Inr ([''simple''], [simple_file])"
  by (simp add: parse_test_category_argument_def example_alias_lookup example_lookup simple_file_def)

lemma scripted_case:
  "CHR ''/'' \<notin> set (rsplit_head i) \<Longrightarrow>
   interactive_case scripted_handler language vars (example_case i)
     \<lparr>store = fs, adapter = Returns r md # later, calls = cs, slept = t\<rparr>
   = (None, Some (r, md),
      \<lparr>store = append_line (file_to_write language ''m'' (rsplit_head i))
                 (result_to_write (example_case i) r md) (makedirs (result_dir language ''m'') fs),
       adapter = later, calls = cs @ [(PStr ''q'', PList [], rsplit_head i)], slept = t\<rparr>)"
  by (subst interactive_case_written [where r = r and md = md
        and w' = "\<lparr>store = fs, adapter = later,
                    calls = cs @ [(PStr ''q'', PList [], rsplit_head i)], slept = t\<rparr>"])
     (simp_all add: example_case_fields returning_retry scripted_step)

lemma example_collect:
  "collect_test_cases example_data no_files ''en'' [simple_file] ''m''
     = Inr [example_case ''simple_0'', example_case ''simple_1'', example_case ''simple_2'']"
proof -
  have "example_data (data_path ''en'' simple_file)
          = Some [example_case ''simple_0'', example_case ''simple_1'', example_case ''simple_2'']"
    by (simp add: example_data_def data_path_def simple_file_def)
  moreover have "num_existing_result no_files ''en'' ''m'' simple_file = 0"
    by (simp add: num_existing_result_def no_files_def)
  ultimately show ?thesis by (simp add: collect_test_cases_def)
qed



subsection \<open>A failed case in the middle of a run\<close>

lemma scripted_case_exhausted:
  "CHR ''/'' \<notin> set (rsplit_head i) \<Longrightarrow>
   interactive_case scripted_handler language (Some (r, md)) (example_case i)
     \<lparr>store = fs, adapter = Raises rate_limit_error # Raises rate_limit_error
         # Raises rate_limit_error # later, calls = cs, slept = t\<rparr>
   = (None, Some (r, md),
      \<lparr>store = append_line (file_to_write language ''m'' (rsplit_head i))
                 (result_to_write (example_case i) r md) (makedirs (result_dir language ''m'') fs),
       adapter = later,
       calls = cs @ [(PStr ''q'', PList [], rsplit_head i), (PStr ''q'', PList [], rsplit_head i),
                     (PStr ''q'', PList [], rsplit_head i)],
       slept = t + 195\<rparr>)"
  by (subst interactive_case_written [where r = r and md = md
        and w' = "\<lparr>store = fs, adapter = later,
                    calls = cs @ [(PStr ''q'', PList [], rsplit_head i),
                                  (PStr ''q'', PList [], rsplit_head i),
                                  (PStr ''q'', PList [], rsplit_head i)],
                    slept = t + 195\<rparr>"])
     (simp_all add: example_case_fields exhausted_retry scripted_step)

text \<open>
  C2, on the code: a case whose three attempts all fail with a rate-limit error does not
  abort the run.  In a run of the program over the category \<open>simple\<close>, where
  \<open>simple_0\<close> succeeds, every attempt of \<open>simple_1\<close> fails and \<open>simple_2\<close> succeeds, the
  program ends without an error after sleeping three times, it has consumed the whole
  script, and the log holds three records: the one of the failed case \<open>simple_1\<close> carries
  the result of \<open>simple_0\<close>, and the record of \<open>simple_2\<close> follows it.
\<close>

theorem failed_case_does_not_abort_run:
  "fst (main rev example_aliases scripted_map False example_data ''en'' [''simple''] [''m'']
     (example_world [Returns (PStr ''answer 0'') example_metadata,
        Raises rate_limit_error, Raises rate_limit_error, Raises rate_limit_error,
        Returns (PStr ''answer 2'') example_metadata])) = None
   \<and> read_lines (store (snd (main rev example_aliases scripted_map False example_data ''en''
        [''simple''] [''m'']
        (example_world [Returns (PStr ''answer 0'') example_metadata,
           Raises rate_limit_error, Raises rate_limit_error, Raises rate_limit_error,
           Returns (PStr ''answer 2'') example_metadata])))) simple_log
      = [result_to_write (example_case ''simple_0'') (PStr ''answer 0'') example_metadata,
         result_to_write (example_case ''simple_1'') (PStr ''answer 0'') example_metadata,
         result_to_write (example_case ''simple_2'') (PStr ''answer 2'') example_metadata]
   \<and> adapter (snd (main rev example_aliases scripted_map False example_data ''en''
        [''simple''] [''m'']
        (example_world [Returns (PStr ''answer 0'') example_metadata,
           Raises rate_limit_error, Raises rate_limit_error, Raises rate_limit_error,
           Returns (PStr ''answer 2'') example_metadata]))) = []
   \<and> slept (snd (main rev example_aliases scripted_map False example_data ''en''
        [''simple''] [''m'']
        (example_world [Returns (PStr ''answer 0'') example_metadata,
           Raises rate_limit_error, Raises rate_limit_error, Raises rate_limit_error,
           Returns (PStr ''answer 2'') example_metadata]))) = 195"
proof -
  have h: "build_handler scripted_map ''m'' = Inr scripted_handler"
    by (simp add: build_handler_def scripted_map_def scripted_handler_def)
  have st: "model_style scripted_handler \<noteq> OSSMODEL"
    by (simp add: scripted_handler_def)
  have n: "run_name False ''m'' = ''m''" by (simp add: run_name_def)
  let ?script = "[Returns (PStr ''answer 0'') example_metadata,
        Raises rate_limit_error, Raises rate_limit_error, Raises rate_limit_error,
        Returns (PStr ''answer 2'') example_metadata]"
  let ?r0 = "result_to_write (example_case ''simple_0'') (PStr ''answer 0'') example_metadata"
  let ?r1 = "result_to_write (example_case ''simple_1'') (PStr ''answer 0'') example_metadata"
  let ?r2 = "result_to_write (example_case ''simple_2'') (PStr ''answer 2'') example_metadata"
  let ?c = "(PStr ''q'', PList [], ''simple'')"
  let ?d = "''./result/en/m''"
  have g: "generate_results scripted_map ''en'' ''m''
      [example_case ''simple_0'', example_case ''simple_1'', example_case ''simple_2'']
      \<lparr>store = fs, adapter = ?script, calls = [], slept = 0\<rparr>
    = (None,
       \<lparr>store = append_line simple_log ?r2 (makedirs ?d
                  (append_line simple_log ?r1 (makedirs ?d
                    (append_line simple_log ?r0 (makedirs ?d fs))))),
        adapter = [], calls = [?c, ?c, ?c, ?c, ?c], slept = 195\<rparr>)" for fs
    by (simp add: generate_results_def h st scripted_case scripted_case_exhausted
          example_categories example_paths)
  let ?w0 = "example_world ?script"
  let ?fs0 = "makedirs ''./result/en/m'' (makedirs (''./data/'' @ ''en'') no_files)"
  have d: "''./result/'' @ ''en'' @ ''/'' @ str_replace ''/'' ''_'' ''m'' = ''./result/en/m''"
    by code_simp
  have r: "run_model scripted_map False example_data ''en'' [simple_file] ''m'' ?w0
    = (None,
       \<lparr>store = append_line simple_log ?r2 (makedirs ?d
                  (append_line simple_log ?r1 (makedirs ?d
                    (append_line simple_log ?r0 (makedirs ?d ?fs0))))),
        adapter = [], calls = [?c, ?c, ?c, ?c, ?c], slept = 195\<rparr>)"
    by (simp add: run_model_unfold n example_world_def example_collect g d del: append.simps)
  have m: "main rev example_aliases scripted_map False example_data ''en'' [''simple''] [''m''] ?w0
    = (None,
       \<lparr>store = append_line simple_log ?r2 (makedirs ?d
                  (append_line simple_log ?r1 (makedirs ?d
                    (append_line simple_log ?r0 (makedirs ?d ?fs0))))),
        adapter = [], calls = [?c, ?c, ?c, ?c, ?c], slept = 195\<rparr>)"
    by (simp add: main_def example_parse_simple r)
  show ?thesis
    by (simp add: m read_lines_append_line read_lines_makedirs read_lines_no_files)
qed

end
